theory Spec2Isabelle
  imports
    Complex_Main
    "HOL-Library.Char_ord"
    "HOL-Library.List_Lexorder"
    "HOL-Library.Multiset"
    "HOL-Library.AList"
begin

section \<open>Python strings\<close>

text \<open>
  Python \<open>str\<close> values are modelled as \<^typ>\<open>string\<close>: lists of 8-bit characters. The
  string operations below are the ASCII behaviour of the Python built-ins the program
  calls; a byte outside ASCII is neither a space nor a letter with a lower-case form.
  The order on strings (\<open>Char_ord\<close>, \<open>List_Lexorder\<close>) is the lexicographic order by
  character code that Python's \<open>sorted\<close> uses on \<open>str\<close>.
\<close>

definition isspace :: "char \<Rightarrow> bool" where
  \<comment> \<open>\<open>str.isspace\<close> on one ASCII character: TAB, LF, VT, FF, CR (9 to 13), FS, GS, RS,
      US, SPACE (28 to 32)\<close>
  "isspace c = (let n = (of_char c :: nat) in (9 \<le> n \<and> n \<le> 13) \<or> (28 \<le> n \<and> n \<le> 32))"

definition strip :: "string \<Rightarrow> string" where
  \<comment> \<open>\<open>s.strip()\<close>\<close>
  "strip s = rev (dropWhile isspace (rev (dropWhile isspace s)))"

definition lower_char :: "char \<Rightarrow> char" where
  "lower_char c =
     (let n = (of_char c :: nat) in if 65 \<le> n \<and> n \<le> 90 then char_of (n + 32) else c)"

definition lower :: "string \<Rightarrow> string" where
  \<comment> \<open>\<open>s.lower()\<close>\<close>
  "lower s = map lower_char s"

fun join :: "string \<Rightarrow> string list \<Rightarrow> string" where
  \<comment> \<open>\<open>sep.join(xs)\<close>\<close>
  "join sep [] = []"
| "join sep [x] = x"
| "join sep (x # y # ys) = x @ sep @ join sep (y # ys)"

definition startswith :: "string \<Rightarrow> string \<Rightarrow> bool" where
  \<comment> \<open>\<open>s.startswith(p)\<close>\<close>
  "startswith s p = (take (length p) s = p)"

definition endswith :: "string \<Rightarrow> string \<Rightarrow> bool" where
  \<comment> \<open>\<open>s.endswith(p)\<close>\<close>
  "endswith s p = (length p \<le> length s \<and> drop (length s - length p) s = p)"

definition replace_space :: "string \<Rightarrow> string" where
  \<comment> \<open>\<open>s.replace(" ", "_")\<close>\<close>
  "replace_space s = map (\<lambda>c. if c = CHR '' '' then CHR ''_'' else c) s"

fun str_nat :: "nat \<Rightarrow> string" where
  \<comment> \<open>decimal digits of a natural number, as \<open>str\<close> and f-strings print them\<close>
  "str_nat n =
     (if n < 10 then [char_of (48 + n)] else str_nat (n div 10) @ [char_of (48 + n mod 10)])"

declare str_nat.simps [simp del]

definition str_int :: "int \<Rightarrow> string" where
  \<comment> \<open>\<open>str(i)\<close> / \<open>f"{i}"\<close> for a Python \<open>int\<close>\<close>
  "str_int i = (if i < 0 then CHR ''-'' # str_nat (nat (- i)) else str_nat (nat i))"

section \<open>The recipe cache: freshness and the key fingerprint (app.py)\<close>

text \<open>
  A \<open>datetime\<close> is a naive UTC instant, counted in microseconds (the resolution of
  Python's \<open>datetime\<close> and \<open>timedelta\<close>). The \<open>ts\<close> field of a cache entry is
  kept as the value \<open>datetime.fromisoformat(iso_str.replace("Z",""))\<close> reads back:
  \<open>None\<close> when that call (or the subtraction from \<open>utcnow()\<close>) raises.
\<close>

type_synonym datetime = int

definition CACHE_TTL_DAYS :: int where
  "CACHE_TTL_DAYS = 3"

definition timedelta_days :: "int \<Rightarrow> int" where
  \<comment> \<open>\<open>timedelta(days=d)\<close> in microseconds\<close>
  "timedelta_days d = d * 86400 * 1000000"

definition is_fresh :: "datetime \<Rightarrow> datetime option \<Rightarrow> int \<Rightarrow> bool" where
  \<comment> \<open>\<open>_is_fresh(iso_str, days)\<close> evaluated when \<open>datetime.utcnow()\<close> is \<open>now\<close>\<close>
  "is_fresh now iso_ts days =
     (case iso_ts of
        None \<Rightarrow> False
      | Some ts \<Rightarrow> now - ts \<le> timedelta_days days)"

definition truthy :: "string option \<Rightarrow> bool" where
  \<comment> \<open>truth value of an \<open>Optional[str]\<close>: \<open>None\<close> and \<open>""\<close> are false\<close>
  "truthy v = (case v of None \<Rightarrow> False | Some s \<Rightarrow> s \<noteq> [])"

definition or_str :: "string option \<Rightarrow> string \<Rightarrow> string" where
  \<comment> \<open>\<open>v or d\<close> for an \<open>Optional[str]\<close> \<open>v\<close>\<close>
  "or_str v d = (case v of None \<Rightarrow> d | Some s \<Rightarrow> if s = [] then d else s)"

definition or_int :: "int \<Rightarrow> int \<Rightarrow> int" where
  \<comment> \<open>\<open>n or d\<close> for an \<open>int\<close> \<open>n\<close>\<close>
  "or_int n d = (if n = 0 then d else n)"

definition norm_names :: "string list \<Rightarrow> string list" where
  \<comment> \<open>the generator \<open>x.strip().lower() for x in ingredients if x\<close>\<close>
  "norm_names ingredients = map (\<lambda>x. lower (strip x)) (filter (\<lambda>x. x \<noteq> []) ingredients)"

definition cache_key :: "string list \<Rightarrow> string option \<Rightarrow> int \<Rightarrow> string" where
  \<comment> \<open>\<open>_cache_key(ingredients, diet, number)\<close>\<close>
  "cache_key ingredients diet number =
     (let norm = strip (join '','' (sort (norm_names ingredients)));
          d = lower (or_str diet ''none'')
      in norm @ ''|'' @ d @ ''|'' @ str_int (or_int number 10))"

section \<open>Image helpers (app.py)\<close>

text \<open>
  The provider's JSON gives \<open>id\<close> as a number or null and \<open>image\<close>, \<open>imageType\<close> as
  a string or null, so \<open>rid\<close> is an \<^typ>\<open>int option\<close> (\<open>int(rid)\<close> raises exactly on
  \<open>None\<close>) and the other two are \<^typ>\<open>string option\<close>.
\<close>

definition build_img_from_id :: "int option \<Rightarrow> string option \<Rightarrow> string option" where
  \<comment> \<open>\<open>_build_img_from_id(rid, image_type)\<close>\<close>
  "build_img_from_id rid image_type =
     (case rid of
        None \<Rightarrow> None
      | Some rid_int \<Rightarrow>
          if \<not> truthy image_type then None
          else Some (''https://img.spoonacular.com/recipes/'' @ str_int rid_int @ ''-556x370.''
                     @ or_str image_type []))"

definition absolute_url :: "string \<Rightarrow> bool" where
  \<comment> \<open>\<open>v.startswith(("http://", "https://", "data:"))\<close>\<close>
  "absolute_url v =
     (startswith v ''http://'' \<or> startswith v ''https://'' \<or> startswith v ''data:'')"

definition bare_image_name :: "string \<Rightarrow> bool" where
  \<comment> \<open>\<open>v.endswith((".jpg", ".jpeg", ".png")) and "/" not in v\<close>\<close>
  "bare_image_name v =
     ((endswith v ''.jpg'' \<or> endswith v ''.jpeg'' \<or> endswith v ''.png'')
      \<and> CHR ''/'' \<notin> set v)"

definition fix_image_url :: "string option \<Rightarrow> int option \<Rightarrow> string option \<Rightarrow> string option" where
  \<comment> \<open>\<open>_fix_image_url(val, rid, image_type)\<close>\<close>
  "fix_image_url val rid image_type =
     (let from_val =
            (case val of
               None \<Rightarrow> None
             | Some s \<Rightarrow>
                 if strip s = [] then None
                 else
                   let v = strip s in
                   if absolute_url v then Some v
                   else if bare_image_name v
                   then Some (''https://img.spoonacular.com/recipes/'' @ v)
                   else None)
      in case from_val of
           Some u \<Rightarrow> Some u
         | None \<Rightarrow>
             let built = build_img_from_id rid image_type in
             if truthy built then built else None)"

section \<open>Diet names and request parameters (app.py, \<open>spoonacular_recipes\<close>)\<close>

definition diet_map :: "(string option \<times> string option) list" where
  \<comment> \<open>the dict literal \<open>diet_map\<close>; a value \<open>None\<close> is Python's \<open>None\<close>\<close>
  "diet_map =
     [(Some ''keto'', Some ''ketogenic''),
      (Some ''gluten-free'', Some ''gluten free''),
      (Some ''paleo'', Some ''paleolithic''),
      (Some ''none'', None),
      (None, None)]"

definition diet_norm :: "string option \<Rightarrow> string option" where
  \<comment> \<open>\<open>diet_map.get((diet or "").lower(), (diet or ""))\<close>\<close>
  "diet_norm diet =
     (case map_of diet_map (Some (lower (or_str diet []))) of
        Some v \<Rightarrow> v
      | None \<Rightarrow> Some (or_str diet []))"

type_synonym params = "(string \<times> string) list"

text \<open>
  A \<open>params\<close> dict is an association list in insertion order; numbers are kept in the
  decimal form in which they are put into the query string.
\<close>

definition complex_search_params :: "string list \<Rightarrow> string option \<Rightarrow> int \<Rightarrow> params" where
  \<comment> \<open>the dict \<open>params\<close> of attempt 1, with \<open>params["diet"]\<close> set when \<open>diet_norm\<close> is true\<close>
  "complex_search_params ingredients dn number =
     (let params =
            [(''includeIngredients'', join '','' (take 20 ingredients)),
             (''fillIngredients'', ''true''),
             (''addRecipeInformation'', ''true''),
             (''instructionsRequired'', ''true''),
             (''number'', str_int (or_int number 10)),
             (''sort'', ''meta-score'')]
      in if truthy dn then AList.update ''diet'' (or_str dn []) params else params)"

definition find_by_ingredients_params :: "string list \<Rightarrow> int \<Rightarrow> params" where
  \<comment> \<open>the dict \<open>params2\<close> of attempt 2\<close>
  "find_by_ingredients_params ingredients number =
     [(''ingredients'', join '','' (take 20 ingredients)),
      (''number'', str_int (or_int number 10)),
      (''ranking'', ''1''),
      (''ignorePantry'', ''true'')]"

section \<open>The key pool and the rotating provider call (app.py)\<close>

datatype py_error = IndexError | ValueError | AttributeError | ModelNotTrained

text \<open>
  \<open>ModelNotTrained\<close> is the \<open>RuntimeError("Model not trained. ...")\<close> of the recommender.
\<close>

record raw_recipe =
  rec_id :: "int option"
  rec_title :: "string option"
  rec_image :: "string option"
  rec_imageType :: "string option"
  rec_usedIngredientCount :: "int option"
  rec_missedIngredientCount :: "int option"
  rec_sourceUrl :: "string option"
  rec_spoonacularSourceUrl :: "string option"
  rec_readyInMinutes :: "int option"
  rec_servings :: "int option"

text \<open>
  One recipe object of a provider payload, read with \<open>rec.get(...)\<close>: a field is \<open>None\<close>
  when the key is missing or null.
\<close>

record request =
  endpoint :: string
  params :: params

record response =
  status_code :: int
  json :: "raw_recipe list option"

text \<open>
  \<open>json\<close> is what the list endpoints' payload parses to: the recipe objects under
  \<open>"results"\<close> for complexSearch and the top-level array for findByIngredients; \<open>None\<close>
  when reading it raises (\<open>r.json()\<close> fails or the payload has another shape).
\<close>

datatype outcome = Returned response | Raised

type_synonym network = "nat \<Rightarrow> request \<Rightarrow> outcome"

text \<open>
  The provider and the network are an oracle: the outcome of the \<open>i\<close>-th outbound
  \<open>requests.get\<close> of the process, given the request sent. \<open>Raised\<close> is any exception of
  \<open>requests.get\<close> (timeout, connection error).
\<close>

record session =
  key_index :: nat
  sent :: "request list"

text \<open>
  \<open>key_index\<close> is \<open>st.session_state.key_index\<close>; \<open>sent\<close> logs the outbound requests made
  so far, oldest first.
\<close>

definition current_key :: "string list \<Rightarrow> 's session_scheme \<Rightarrow> py_error + string" where
  \<comment> \<open>\<open>current_key()\<close>; \<open>KEYS[i]\<close> raises IndexError out of range\<close>
  "current_key KEYS s =
     (if KEYS = [] then Inr []
      else if key_index s < length KEYS then Inr (strip (KEYS ! key_index s))
      else Inl IndexError)"

definition rotate_status :: "int \<Rightarrow> bool" where
  \<comment> \<open>\<open>r.status_code in (401, 402, 429)\<close>\<close>
  "rotate_status c = (c = 401 \<or> c = 402 \<or> c = 429)"

fun attempts ::
  "string list \<Rightarrow> network \<Rightarrow> string \<Rightarrow> nat \<Rightarrow> nat \<Rightarrow> params \<Rightarrow> 's session_scheme
     \<Rightarrow> (py_error + response option) \<times> 's session_scheme" where
  \<comment> \<open>the body of \<open>for _ in range(n)\<close>, with the number of iterations left\<close>
  "attempts KEYS net ep n 0 ps s = (Inr None, s)"
| "attempts KEYS net ep n (Suc m) ps s =
     (case current_key KEYS s of
        Inl e \<Rightarrow> (Inl e, s)
      | Inr k \<Rightarrow>
          if k = [] then
            attempts KEYS net ep n m ps (s\<lparr>key_index := (key_index s + 1) mod n\<rparr>)
          else
            let ps' = AList.update ''apiKey'' k ps;
                req = \<lparr>endpoint = ''https://api.spoonacular.com'' @ ep, params = ps'\<rparr>;
                s' = s\<lparr>sent := sent s @ [req]\<rparr>
            in case net (length (sent s)) req of
                 Returned r \<Rightarrow>
                   if rotate_status (status_code r) then
                     attempts KEYS net ep n m ps' (s'\<lparr>key_index := (key_index s + 1) mod n\<rparr>)
                   else (Inr (Some r), s')
               | Raised \<Rightarrow>
                   attempts KEYS net ep n m ps' (s'\<lparr>key_index := (key_index s + 1) mod n\<rparr>))"

definition call_spoonacular ::
  "string list \<Rightarrow> network \<Rightarrow> string \<Rightarrow> params \<Rightarrow> 's session_scheme
     \<Rightarrow> (py_error + response option) \<times> 's session_scheme" where
  \<comment> \<open>\<open>call_spoonacular(endpoint, params)\<close>; \<open>Inr None\<close> is the returned \<open>None\<close>\<close>
  "call_spoonacular KEYS net ep ps s =
     (let n = max 1 (length KEYS) in attempts KEYS net ep n n ps s)"

section \<open>Recipe lists: cache, provider, offline catalog (app.py)\<close>

record summary =
  sum_id :: "int option"
  sum_title :: "string option"
  sum_image :: "string option"
  sum_usedIngredientCount :: "int option"
  sum_missedIngredientCount :: "int option"
  sum_sourceUrl :: "string option"
  sum_readyInMinutes :: "int option"
  sum_servings :: "int option"
  sum_imageType :: "string option"

record cache_entry =
  ts :: "datetime option"
  data :: "summary list"

text \<open>
  A cache entry is the dict \<open>{"ts": ..., "data": ...}\<close> that \<open>_save_and_return\<close> writes: it
  has both keys, so it is true as a condition and \<open>entry.get("ts", "")\<close>,
  \<open>entry.get("data", [])\<close> read the stored fields.
\<close>

record world = session +
  offline_mode :: bool
  LIST_CACHE :: "(string \<times> cache_entry) list option"

text \<open>
  \<open>LIST_CACHE\<close> is the \<open>"items"\<close> dict of the file \<open>recipes_cache.json\<close>, in insertion
  order; \<open>None\<close> when the file is missing or unreadable, where \<open>_read_json\<close> returns the
  default \<open>{"items": {}, "meta": {}}\<close>.
\<close>

record env =
  KEYS :: "string list"
  net :: network
  utcnow :: datetime
  DEMO_RECIPES_FILE :: "summary list option"
  disk_writable :: bool

text \<open>
  What a request does not change: the key pool, the provider, the clock (one reading
  for the whole request), the content of \<open>demo_recipes.json\<close> when it holds a JSON list
  (\<open>None\<close> otherwise), and whether \<open>_write_json\<close> succeeds (its exceptions are swallowed;
  a failed write is taken to leave the file as it was).
\<close>

definition demo_summary :: "int \<Rightarrow> string \<Rightarrow> int \<Rightarrow> int \<Rightarrow> int \<Rightarrow> summary" where
  "demo_summary i t used missed ready =
     \<lparr>sum_id = Some i, sum_title = Some t, sum_image = None,
      sum_usedIngredientCount = Some used, sum_missedIngredientCount = Some missed,
      sum_sourceUrl = None, sum_readyInMinutes = Some ready, sum_servings = Some 2,
      sum_imageType = None\<rparr>"

definition load_demo_recipes :: "env \<Rightarrow> summary list" where
  \<comment> \<open>\<open>_load_demo_recipes()\<close>\<close>
  "load_demo_recipes e =
     (case DEMO_RECIPES_FILE e of
        Some (d # ds) \<Rightarrow> d # ds
      | _ \<Rightarrow>
          [demo_summary 910001 ''Masala Khichdi'' 4 0 28,
           demo_summary 910002 ''Paneer Bhurji Wrap'' 5 0 20,
           demo_summary 910003 ''Garlic Butter Pasta'' 3 1 18])"

definition read_items :: "world \<Rightarrow> (string \<times> cache_entry) list" where
  \<comment> \<open>\<open>_read_json(LIST_CACHE, {"items": {}, "meta": {}})["items"]\<close>\<close>
  "read_items w = (case LIST_CACHE w of None \<Rightarrow> [] | Some items \<Rightarrow> items)"

definition clean_ingredients :: "string list \<Rightarrow> string list" where
  \<comment> \<open>\<open>[x.strip() for x in (include_ingredients or []) if x and x.strip()]\<close>\<close>
  "clean_ingredients include_ingredients =
     map strip (filter (\<lambda>x. x \<noteq> [] \<and> strip x \<noteq> []) include_ingredients)"

definition complex_summary :: "raw_recipe \<Rightarrow> summary" where
  \<comment> \<open>the dict appended to \<open>summaries\<close> in attempt 1\<close>
  "complex_summary r =
     \<lparr>sum_id = rec_id r,
      sum_title = rec_title r,
      sum_image = fix_image_url (rec_image r) (rec_id r) (rec_imageType r),
      sum_usedIngredientCount = rec_usedIngredientCount r,
      sum_missedIngredientCount = rec_missedIngredientCount r,
      sum_sourceUrl =
        (if truthy (rec_sourceUrl r) then rec_sourceUrl r else rec_spoonacularSourceUrl r),
      sum_readyInMinutes = rec_readyInMinutes r,
      sum_servings = rec_servings r,
      sum_imageType = rec_imageType r\<rparr>"

definition or_zero :: "int option \<Rightarrow> int option" where
  \<comment> \<open>\<open>rec.get(k) or 0\<close>\<close>
  "or_zero v = (case v of None \<Rightarrow> Some 0 | Some i \<Rightarrow> Some i)"

definition find_summary :: "raw_recipe \<Rightarrow> summary" where
  \<comment> \<open>the dict appended to \<open>out\<close> in attempt 2\<close>
  "find_summary r =
     \<lparr>sum_id = rec_id r,
      sum_title = rec_title r,
      sum_image = fix_image_url (rec_image r) (rec_id r) (rec_imageType r),
      sum_usedIngredientCount = or_zero (rec_usedIngredientCount r),
      sum_missedIngredientCount = or_zero (rec_missedIngredientCount r),
      sum_sourceUrl = None,
      sum_readyInMinutes = None,
      sum_servings = None,
      sum_imageType = rec_imageType r\<rparr>"

definition save_and_return ::
  "env \<Rightarrow> string \<Rightarrow> (string \<times> cache_entry) list \<Rightarrow> summary list \<Rightarrow> world
     \<Rightarrow> summary list \<times> world" where
  \<comment> \<open>\<open>_save_and_return(data_list)\<close>, for the \<open>key\<close> and the \<open>blob["items"]\<close> of the request\<close>
  "save_and_return e key items data_list w =
     (let items' = AList.update key \<lparr>ts = Some (utcnow e), data = data_list\<rparr> items
      in (data_list, if disk_writable e then w\<lparr>LIST_CACHE := Some items'\<rparr> else w))"

datatype flow = Return "summary list" world | Next world

text \<open>
  How one network attempt of \<open>spoonacular_recipes\<close> ends: the function returns, or control
  reaches the code after the \<open>try\<close> block (nothing usable came back, or an exception was
  caught by \<open>except Exception\<close>).
\<close>

definition fresh_data :: "env \<Rightarrow> cache_entry option \<Rightarrow> summary list option" where
  \<comment> \<open>\<open>if entry and _is_fresh(entry.get("ts", "")): return entry.get("data", [])\<close>\<close>
  "fresh_data e entry =
     (case entry of
        Some c \<Rightarrow> if is_fresh (utcnow e) (ts c) CACHE_TTL_DAYS then Some (data c) else None
      | None \<Rightarrow> None)"

definition fallback :: "env \<Rightarrow> cache_entry option \<Rightarrow> summary list" where
  \<comment> \<open>\<open>entry.get("data", []) if entry else _load_demo_recipes()\<close>\<close>
  "fallback e entry = (case entry of Some c \<Rightarrow> data c | None \<Rightarrow> load_demo_recipes e)"

definition primary ::
  "env \<Rightarrow> string \<Rightarrow> (string \<times> cache_entry) list \<Rightarrow> cache_entry option \<Rightarrow> string list
     \<Rightarrow> string option \<Rightarrow> int \<Rightarrow> world \<Rightarrow> flow" where
  \<comment> \<open>attempt 1: complexSearch\<close>
  "primary e key items entry ingredients dn number w =
     (case call_spoonacular (KEYS e) (net e) ''/recipes/complexSearch''
             (complex_search_params ingredients dn number) w of
        (Inl err, w1) \<Rightarrow> Next w1
      | (Inr None, w1) \<Rightarrow> Return (fallback e entry) w1
      | (Inr (Some r), w1) \<Rightarrow>
          if status_code r = 200 then
            (case json r of
               None \<Rightarrow> Next w1
             | Some results \<Rightarrow>
                 let summaries = map complex_summary results in
                 if summaries \<noteq> [] then
                   (case save_and_return e key items summaries w1 of (xs, w2) \<Rightarrow> Return xs w2)
                 else Next w1)
          else Next w1)"

definition secondary ::
  "env \<Rightarrow> string \<Rightarrow> (string \<times> cache_entry) list \<Rightarrow> cache_entry option \<Rightarrow> string list
     \<Rightarrow> int \<Rightarrow> world \<Rightarrow> flow" where
  \<comment> \<open>attempt 2: findByIngredients\<close>
  "secondary e key items entry ingredients number w =
     (case call_spoonacular (KEYS e) (net e) ''/recipes/findByIngredients''
             (find_by_ingredients_params ingredients number) w of
        (Inl err, w1) \<Rightarrow> Next w1
      | (Inr None, w1) \<Rightarrow> Return (fallback e entry) w1
      | (Inr (Some r2), w1) \<Rightarrow>
          if status_code r2 = 200 then
            (case json r2 of
               None \<Rightarrow> Next w1
             | Some arr \<Rightarrow>
                 let out = map find_summary arr in
                 if out \<noteq> [] then
                   (case save_and_return e key items out w1 of (xs, w2) \<Rightarrow> Return xs w2)
                 else Next w1)
          else Next w1)"

definition spoonacular_recipes ::
  "env \<Rightarrow> string list \<Rightarrow> string option \<Rightarrow> int \<Rightarrow> world \<Rightarrow> summary list \<times> world" where
  \<comment> \<open>\<open>spoonacular_recipes(include_ingredients, diet, number)\<close>\<close>
  "spoonacular_recipes e include_ingredients diet number w =
     (if offline_mode w then
        (let ingredients = clean_ingredients include_ingredients;
             dn = lower (or_str diet ''none'');
             key = cache_key ingredients (Some dn) number;
             entry = map_of (read_items w) key
         in case fresh_data e entry of
              Some xs \<Rightarrow> (xs, w)
            | None \<Rightarrow> (load_demo_recipes e, w))
      else
        (let dn = diet_norm diet;
             cleaned = clean_ingredients include_ingredients;
             ingredients = (if cleaned = [] then [''egg'', ''milk'', ''bread''] else cleaned);
             key = cache_key ingredients (Some (or_str dn ''none'')) number;
             items = read_items w;
             entry = map_of items key
         in case fresh_data e entry of
              Some xs \<Rightarrow> (xs, w)
            | None \<Rightarrow>
                (case primary e key items entry ingredients dn number w of
                   Return xs w' \<Rightarrow> (xs, w')
                 | Next w1 \<Rightarrow>
                     (case secondary e key items entry ingredients number w1 of
                        Return xs w' \<Rightarrow> (xs, w')
                      | Next w2 \<Rightarrow> (fallback e entry, w2)))))"

section \<open>The recommender (src/model\_training/model\_trainer.py)\<close>

record recipe_row =
  recipe_id :: int
  title :: string
  ingredients_text :: string
  diet_tag :: "string option"

record rec_table =
  has_diet_tag :: bool
  table_rows :: "recipe_row list"

text \<open>
  \<open>recipes_index.csv\<close> as \<open>pd.read_csv\<close> loads it: whether it has a \<open>diet_tag\<close> column, and
  its rows in stored order. A \<open>diet_tag\<close> cell holds text or is missing (NaN, \<open>None\<close>).
\<close>

record ('v, 'm) artifacts =
  VECT_PATH :: "'v option"
  MATRIX_PATH :: "'m option"
  RECIPES_MAP :: "rec_table option"

text \<open>
  The three persisted artifacts; \<open>None\<close> where \<open>os.path.exists\<close> is false. The fitted
  vectorizer and the term matrix are values of abstract types \<open>'v\<close> and \<open>'m\<close>: scikit-learn
  computes with them, as the parameter \<open>linear_kernel\<close> of \<open>recommend_from_pantry\<close>, which
  stands for \<open>linear_kernel(vec.transform([q]), mat).ravel()\<close>, one score for each row
  of the matrix. A finite floating-point score is a real number.
\<close>

definition head_df :: "int \<Rightarrow> 'a list \<Rightarrow> 'a list" where
  \<comment> \<open>\<open>df.head(n)\<close>: the first \<open>n\<close> rows, for negative \<open>n\<close> all but the last \<open>-n\<close> rows\<close>
  "head_df n xs = (if 0 \<le> n then take (nat n) xs else take (length xs - nat (- n)) xs)"

definition pantry_tokens :: "string list \<Rightarrow> string list" where
  \<comment> \<open>\<open>str(i).lower().strip().replace(" ", "_") for i in pantry_items if str(i).strip()\<close>\<close>
  "pantry_tokens pantry_items =
     map (\<lambda>i. replace_space (strip (lower i))) (filter (\<lambda>i. strip i \<noteq> []) pantry_items)"

definition nargsort_desc :: "(real list \<Rightarrow> nat list) \<Rightarrow> real list \<Rightarrow> py_error + nat list" where
  \<comment> \<open>pandas' \<open>nargsort(items, kind="quicksort", ascending=False)\<close> on scores without NaN:
      reverse the values and their positions, take \<open>non_nans.argsort(kind)\<close>, index the
      positions with it (IndexError out of range), reverse the result\<close>
  "nargsort_desc argsort items =
     (let non_nans = rev items;
          non_nan_idx = rev [0..<length items];
          order = argsort non_nans
      in if \<forall>i \<in> set order. i < length non_nan_idx
         then Inr (rev (map (\<lambda>i. non_nan_idx ! i) order))
         else Inl IndexError)"

definition sort_values_desc ::
  "(real list \<Rightarrow> nat list) \<Rightarrow> (recipe_row \<times> real) list
     \<Rightarrow> py_error + (recipe_row \<times> real) list" where
  \<comment> \<open>\<open>sort_values("score", ascending=False)\<close>: the rows taken in the order of the indexer\<close>
  "sort_values_desc argsort scored =
     (case nargsort_desc argsort (map snd scored) of
        Inl err \<Rightarrow> Inl err
      | Inr indexer \<Rightarrow>
          if \<forall>i \<in> set indexer. i < length scored
          then Inr (map (\<lambda>i. scored ! i) indexer)
          else Inl IndexError)"

text \<open>
  \<open>argsort\<close> stands for numpy's \<open>argsort(kind="quicksort")\<close>, the default sorting routine
  of \<open>sort_values\<close>: it gives the positions of the values in ascending order. That
  routine is not stable, so the order it gives to equal values, and with it the order
  of rows of equal score in the result, is not fixed by the program; it is a parameter
  here, as scikit-learn's scoring is.
\<close>

definition diet_matches :: "string \<Rightarrow> recipe_row \<times> real \<Rightarrow> bool" where
  \<comment> \<open>one cell of the mask \<open>rec_map["diet_tag"].str.lower() == diet.lower()\<close>\<close>
  "diet_matches d p =
     (case diet_tag (fst p) of None \<Rightarrow> False | Some t \<Rightarrow> lower t = lower d)"

definition head_sorted ::
  "(real list \<Rightarrow> nat list) \<Rightarrow> int \<Rightarrow> (recipe_row \<times> real) list
     \<Rightarrow> py_error + (recipe_row \<times> real) list" where
  \<comment> \<open>\<open>rec_map.sort_values("score", ascending=False).head(top_k)\<close>\<close>
  "head_sorted argsort top_k scored =
     (case sort_values_desc argsort scored of
        Inl err \<Rightarrow> Inl err
      | Inr sorted_rows \<Rightarrow> Inr (head_df top_k sorted_rows))"

definition recommend_from_pantry ::
  "('v \<Rightarrow> 'm \<Rightarrow> string \<Rightarrow> real list) \<Rightarrow> (real list \<Rightarrow> nat list) \<Rightarrow> ('v, 'm) artifacts
     \<Rightarrow> string list \<Rightarrow> int \<Rightarrow> string option \<Rightarrow> py_error + (recipe_row \<times> real) list" where
  \<comment> \<open>\<open>recommend_from_pantry(pantry_items, top_k, diet)\<close>; a result row is a catalog row
      with its \<open>score\<close>\<close>
  "recommend_from_pantry linear_kernel argsort art pantry_items top_k diet =
     (case VECT_PATH art of
        None \<Rightarrow> Inl ModelNotTrained
      | Some vec \<Rightarrow>
     (case MATRIX_PATH art of
        None \<Rightarrow> Inl ModelNotTrained
      | Some mat \<Rightarrow>
     (case RECIPES_MAP art of
        None \<Rightarrow> Inl ModelNotTrained
      | Some rec_map \<Rightarrow>
          let pantry_query = join '' '' (pantry_tokens pantry_items) in
          if pantry_query = [] then
            Inr (map (\<lambda>r. (r, 0)) (head_df top_k (table_rows rec_map)))
          else
            let sims = linear_kernel vec mat pantry_query in
            if length sims \<noteq> length (table_rows rec_map) then Inl ValueError
            else
              let scored = zip (table_rows rec_map) sims in
              if truthy diet \<and> has_diet_tag rec_map then
                (if table_rows rec_map \<noteq> []
                    \<and> (\<forall>r \<in> set (table_rows rec_map). diet_tag r = None)
                 then Inl AttributeError
                 else head_sorted argsort top_k (filter (diet_matches (or_str diet [])) scored))
              else head_sorted argsort top_k scored)))"

text \<open>
  \<open>ValueError\<close>: assigning a \<open>score\<close> column of another length than the table.
  \<open>AttributeError\<close>: the \<open>.str\<close> accessor on a \<open>diet_tag\<close> column without text (every cell
  missing, which \<open>read_csv\<close> types as float). The catalog of a trained index has at least
  one row: \<open>train_recipe_model\<close> cannot fit an empty corpus, and scikit-learn refuses to
  score against a matrix without rows.
\<close>

section \<open>Notions used in the statements about the key pool\<close>

definition rotates :: "outcome \<Rightarrow> bool" where
  \<comment> \<open>the attempt ends in one of the three \<open>continue\<close> branches that rotate the key\<close>
  "rotates out = (case out of Raised \<Rightarrow> True | Returned r \<Rightarrow> rotate_status (status_code r))"

text \<open>
  \<open>pass_post pool nt m s res new s'\<close>: what \<open>m\<close> iterations of the loop, started in session
  \<open>s\<close>, have done when they end in \<open>s'\<close> with result \<open>res\<close> after sending the requests
  \<open>new\<close>. It is the invariant of the induction over the loop.
\<close>

definition pass_post ::
  "string list \<Rightarrow> network \<Rightarrow> nat \<Rightarrow> 's session_scheme \<Rightarrow> response option \<Rightarrow> request list
     \<Rightarrow> 's session_scheme \<Rightarrow> bool" where
  "pass_post pool nt m s res new s' =
     (sent s' = sent s @ new \<and> length new \<le> m \<and> key_index s' < length pool
      \<and> (\<forall>j < length new - (case res of None \<Rightarrow> 0 | Some r \<Rightarrow> 1).
            rotates (nt (length (sent s) + j) (new ! j)))
      \<and> (case res of
            None \<Rightarrow> key_index s' = (key_index s + m) mod length pool
          | Some r \<Rightarrow>
              new \<noteq> [] \<and> nt (length (sent s) + (length new - 1)) (last new) = Returned r
              \<and> \<not> rotate_status (status_code r)
              \<and> map_of (params (last new)) ''apiKey'' = Some (strip (pool ! key_index s')))
      \<and> ((\<forall>k \<in> set pool. strip k \<noteq> []) \<longrightarrow>
            (\<forall>j < length new.
               map_of (params (new ! j)) ''apiKey''
                 = Some (strip (pool ! ((key_index s + j) mod length pool))))
            \<and> (case res of
                 None \<Rightarrow> length new = m
               | Some r \<Rightarrow> key_index s' = (key_index s + (length new - 1)) mod length pool)))"

section \<open>Notions used in the statements about recipe lists\<close>

definition fruitless :: "outcome \<Rightarrow> bool" where
  \<comment> \<open>a network attempt that gives no recipes: an exception, a status other than 200, or
      a 200 payload that cannot be read or holds no recipe\<close>
  "fruitless out =
     (case out of
        Raised \<Rightarrow> True
      | Returned r \<Rightarrow> status_code r \<noteq> 200 \<or> json r = None \<or> json r = Some [])"

definition online_key :: "string list \<Rightarrow> string option \<Rightarrow> int \<Rightarrow> string" where
  \<comment> \<open>the \<open>key\<close> that \<open>spoonacular_recipes\<close> computes outside offline mode\<close>
  "online_key include_ingredients diet number =
     (let cleaned = clean_ingredients include_ingredients;
          ingredients = (if cleaned = [] then [''egg'', ''milk'', ''bread''] else cleaned)
      in cache_key ingredients (Some (or_str (diet_norm diet) ''none'')) number)"

fun flow_world :: "flow \<Rightarrow> world" where
  "flow_world (Return xs w) = w"
| "flow_world (Next w) = w"

section \<open>Sample data for the concrete instances\<close>

definition tofu_bowl :: recipe_row where
  "tofu_bowl = \<lparr>recipe_id = 1, title = ''Tofu Bowl'', ingredients_text = ''tofu, rice'',
                 diet_tag = Some ''Vegan''\<rparr>"

definition omelette :: recipe_row where
  "omelette = \<lparr>recipe_id = 2, title = ''Omelette'', ingredients_text = ''egg, cheese'',
                diet_tag = Some ''keto''\<rparr>"

definition lentil_soup :: recipe_row where
  "lentil_soup = \<lparr>recipe_id = 3, title = ''Lentil Soup'', ingredients_text = ''lentil, onion'',
                   diet_tag = Some ''vegan''\<rparr>"

definition catalog3 :: rec_table where
  "catalog3 = \<lparr>has_diet_tag = True, table_rows = [tofu_bowl, omelette, lentil_soup]\<rparr>"

definition scores3 :: "unit \<Rightarrow> unit \<Rightarrow> string \<Rightarrow> real list" where
  "scores3 vec mat q = [1 / 2, 1, 1 / 2]"

definition trained3 :: "(unit, unit) artifacts" where
  "trained3 = \<lparr>VECT_PATH = Some (), MATRIX_PATH = Some (), RECIPES_MAP = Some catalog3\<rparr>"

definition argsort_stable :: "real list \<Rightarrow> nat list" where
  \<comment> \<open>a sorting routine that keeps equal values in their order\<close>
  "argsort_stable xs = map snd (sort_key fst (zip xs [0..<length xs]))"

definition argsort_reversing :: "real list \<Rightarrow> nat list" where
  \<comment> \<open>a sorting routine that puts equal values in the opposite order\<close>
  "argsort_reversing xs = rev (map snd (sort_key (\<lambda>p. - fst p) (zip xs [0..<length xs])))"

definition pool3 :: "string list" where
  "pool3 = [''key-a'', ''key-b'', ''key-c'']"

definition net_third_succeeds :: network where
  "net_third_succeeds i req =
     (if i < 2 then Returned \<lparr>status_code = 429, json = None\<rparr>
      else Returned \<lparr>status_code = 200, json = Some []\<rparr>)"

definition net_all_rotate :: network where
  "net_all_rotate i req = (if even i then Returned \<lparr>status_code = 402, json = None\<rparr> else Raised)"

definition net_empty_then_error :: network where
  "net_empty_then_error i req =
     (if i = 0 then Returned \<lparr>status_code = 200, json = Some []\<rparr>
      else Returned \<lparr>status_code = 500, json = None\<rparr>)"

definition env_failing :: env where
  "env_failing =
     \<lparr>KEYS = pool3, net = net_empty_then_error, utcnow = 10 * 86400 * 1000000,
      DEMO_RECIPES_FILE = None, disk_writable = True\<rparr>"

definition stale_entry :: cache_entry where
  "stale_entry = \<lparr>ts = Some 0, data = [demo_summary 42 ''Cached Stew'' 2 1 30]\<rparr>"

definition world_stale :: world where
  "world_stale =
     \<lparr>key_index = 0, sent = [], offline_mode = False,
      LIST_CACHE = Some [(''egg|none|10'', stale_entry)]\<rparr>"

section \<open>Properties of the string operations\<close>

lemma dropWhile_Nil_D: "dropWhile P xs = [] \<Longrightarrow> (\<forall>x \<in> set xs. P x)"
  by (induction xs) (auto split: if_splits)

lemma strip_Nil_iff: "strip s = [] \<longleftrightarrow> (\<forall>c \<in> set s. isspace c)"
proof
  assume "strip s = []"
  then have a: "dropWhile isspace (rev (dropWhile isspace s)) = []"
    by (simp add: strip_def)
  show "\<forall>c \<in> set s. isspace c"
  proof (rule ccontr)
    assume "\<not> (\<forall>c \<in> set s. isspace c)"
    then have "dropWhile isspace s \<noteq> []" using dropWhile_Nil_D by blast
    then have "\<not> isspace (hd (dropWhile isspace s))" by (rule hd_dropWhile)
    moreover have "hd (dropWhile isspace s) \<in> set (rev (dropWhile isspace s))"
      using \<open>dropWhile isspace s \<noteq> []\<close> by simp
    ultimately have "dropWhile isspace (rev (dropWhile isspace s)) \<noteq> []"
      using dropWhile_Nil_D by blast
    with a show False by simp
  qed
next
  assume "\<forall>c \<in> set s. isspace c"
  then show "strip s = []" by (auto simp: strip_def dest: set_dropWhileD)
qed

lemma isspace_lower_char: "isspace (lower_char c) = isspace c"
  by (auto simp: isspace_def lower_char_def Let_def)

lemma strip_lower_Nil_iff: "strip (lower s) = [] \<longleftrightarrow> strip s = []"
  by (simp add: strip_Nil_iff lower_def isspace_lower_char)

lemma join_Nil_D: "join sep xs = [] \<Longrightarrow> \<forall>x \<in> set xs. x = []"
  by (induction sep xs rule: join.induct) auto

section \<open>Properties of the cache\<close>

lemma sort_norm_names_cong:
  assumes "mset (norm_names xs) = mset (norm_names ys)"
  shows "sort (norm_names xs) = sort (norm_names ys)"
  using assms by (intro properties_for_sort) simp_all

text \<open>
  C8. Freshness depends only on the entry's timestamp, the current time and the TTL, and
  its boundary is inclusive: an entry stamped now is fresh, an entry stamped exactly
  three days ago is fresh, an entry stamped three days and one microsecond ago is not;
  in general an entry is fresh iff its age is at most three days.
\<close>

theorem is_fresh_boundary:
  "is_fresh now (Some now) CACHE_TTL_DAYS
   \<and> is_fresh now (Some (now - timedelta_days CACHE_TTL_DAYS)) CACHE_TTL_DAYS
   \<and> \<not> is_fresh now (Some (now - timedelta_days CACHE_TTL_DAYS - 1)) CACHE_TTL_DAYS
   \<and> is_fresh now (Some t) CACHE_TTL_DAYS = (now - t \<le> 3 * 86400 * 1000000)"
  by (simp add: is_fresh_def CACHE_TTL_DAYS_def timedelta_days_def)

text \<open>
  C1, as stated, fails: the key is not invariant under duplication. The lists
  \<open>["egg", "egg"]\<close> and \<open>["egg"]\<close> denote the same set of names after trimming and
  lower-casing, yet their keys differ (\<open>egg,egg|vegan|10\<close> and \<open>egg|vegan|10\<close>):
  \<open>_cache_key\<close> sorts the names and never removes duplicates.
\<close>

theorem cache_key_duplicates_counterexample:
  "set (map (\<lambda>x. lower (strip x)) [''egg'', ''egg''])
     = set (map (\<lambda>x. lower (strip x)) [''egg''])
   \<and> cache_key [''egg'', ''egg''] (Some ''vegan'') 10
     \<noteq> cache_key [''egg''] (Some ''vegan'') 10"
  by code_simp

text \<open>
  C1, amended. The key is invariant under reordering and case changes of the ingredient
  names: two lists whose non-empty entries give the same names with the same
  multiplicities after trimming and lower-casing, with the same lower-cased diet (or
  \<open>"none"\<close>) and the same result count (10 standing for 0), have the same key.
\<close>

theorem cache_key_invariant:
  assumes "mset (norm_names xs) = mset (norm_names ys)"
    and "lower (or_str d1 ''none'') = lower (or_str d2 ''none'')"
    and "or_int n1 10 = or_int n2 10"
  shows "cache_key xs d1 n1 = cache_key ys d2 n2"
proof -
  have "sort (norm_names xs) = sort (norm_names ys)"
    using assms(1) by (rule sort_norm_names_cong)
  with assms(2,3) show ?thesis
    by (simp add: cache_key_def)
qed

theorem cache_key_invariant_witness:
  "mset (norm_names [''Egg'', ''Milk'']) = mset (norm_names [''milk'', ''egg''])
   \<and> lower (or_str (Some ''vegan'') ''none'') = lower (or_str (Some ''Vegan'') ''none'')
   \<and> or_int 10 10 = or_int 10 10
   \<and> cache_key [''Egg'', ''Milk''] (Some ''vegan'') 10
     = cache_key [''milk'', ''egg''] (Some ''Vegan'') 10"
proof -
  have a: "mset (norm_names [''Egg'', ''Milk'']) = mset (norm_names [''milk'', ''egg''])"
    by code_simp
  have b: "lower (or_str (Some ''vegan'') ''none'') = lower (or_str (Some ''Vegan'') ''none'')"
    by code_simp
  have c: "or_int 10 10 = or_int 10 10"
    by simp
  from cache_key_invariant [OF a b c] a b show ?thesis
    by simp
qed

section \<open>Properties of the image helpers\<close>

lemma absolute_cdn: "absolute_url (''https://img.spoonacular.com/recipes/'' @ v)"
  by (simp add: absolute_url_def startswith_def)

lemma absolute_url_nonempty: "absolute_url v \<Longrightarrow> v \<noteq> []"
  by (auto simp: absolute_url_def startswith_def)

lemma bare_image_name_nonempty: "bare_image_name v \<Longrightarrow> v \<noteq> []"
  by (auto simp: bare_image_name_def endswith_def)

lemma build_img_from_id_cases:
  "build_img_from_id rid t =
     (case rid of
        None \<Rightarrow> None
      | Some i \<Rightarrow>
          (case t of
             None \<Rightarrow> None
           | Some ty \<Rightarrow>
               if ty = [] then None
               else Some (''https://img.spoonacular.com/recipes/'' @ str_int i @ ''-556x370.'' @ ty)))"
  by (simp add: build_img_from_id_def truthy_def or_str_def split: option.splits)

lemma build_img_absolute: "build_img_from_id rid t = Some u \<Longrightarrow> absolute_url u"
  using absolute_cdn by (auto simp: build_img_from_id_def split: option.splits if_splits)

lemma built_truthy:
  "(if truthy (build_img_from_id rid t) then build_img_from_id rid t else None)
     = build_img_from_id rid t"
  by (simp add: build_img_from_id_def truthy_def split: option.splits)

lemma fix_image_url_None: "fix_image_url None rid t = build_img_from_id rid t"
  by (simp add: fix_image_url_def built_truthy)

lemma fix_image_url_Some:
  "fix_image_url (Some s) rid t =
     (if absolute_url (strip s) then Some (strip s)
      else if bare_image_name (strip s)
      then Some (''https://img.spoonacular.com/recipes/'' @ strip s)
      else build_img_from_id rid t)"
  using absolute_url_nonempty [of "strip s"] bare_image_name_nonempty [of "strip s"]
  by (auto simp: fix_image_url_def Let_def built_truthy)

text \<open>
  C7, as stated, fails for a bare filename whose extension is not \<open>.jpg\<close>, \<open>.jpeg\<close> or
  \<open>.png\<close>: \<open>"abc.gif"\<close> has no path separator, yet it is not prefixed with the CDN base
  path; without id and image type the result is \<open>None\<close>.
\<close>

theorem bare_filename_counterexample:
  "CHR ''/'' \<notin> set ''abc.gif'' \<and> strip ''abc.gif'' = ''abc.gif''
   \<and> fix_image_url (Some ''abc.gif'') None None = None
   \<and> fix_image_url (Some ''abc.gif'') None None
        \<noteq> Some (''https://img.spoonacular.com/recipes/'' @ ''abc.gif'')"
  by code_simp

text \<open>
  C7, amended. With \<open>v\<close> the image value trimmed of surrounding whitespace: if \<open>v\<close> starts
  with \<open>http://\<close>, \<open>https://\<close> or \<open>data:\<close> the result is \<open>v\<close>; otherwise, if \<open>v\<close> ends in
  \<open>.jpg\<close>, \<open>.jpeg\<close> or \<open>.png\<close> and contains no \<open>/\<close>, the result is the CDN base path followed
  by \<open>v\<close>; otherwise (also when there is no image value), if the recipe id and a non-empty
  image type are known, the result is \<open><cdn-base>/<id>-556x370.<type>\<close>; otherwise it is
  \<open>None\<close>. Every result that is not \<open>None\<close> is an absolute URL.
\<close>

theorem fix_image_url_resolution:
  "(absolute_url (strip s) \<longrightarrow> fix_image_url (Some s) rid t = Some (strip s))
   \<and> (\<not> absolute_url (strip s) \<and> bare_image_name (strip s) \<longrightarrow>
        fix_image_url (Some s) rid t = Some (''https://img.spoonacular.com/recipes/'' @ strip s))
   \<and> (val = None
        \<or> (\<exists>x. val = Some x \<and> \<not> absolute_url (strip x) \<and> \<not> bare_image_name (strip x)) \<longrightarrow>
        fix_image_url val rid t =
          (case rid of
             None \<Rightarrow> None
           | Some i \<Rightarrow>
               (case t of
                  None \<Rightarrow> None
                | Some ty \<Rightarrow>
                    if ty = [] then None
                    else Some (''https://img.spoonacular.com/recipes/'' @ str_int i
                               @ ''-556x370.'' @ ty))))
   \<and> (\<forall>u. fix_image_url val rid t = Some u \<longrightarrow> absolute_url u)"
proof (intro conjI impI allI)
  assume "absolute_url (strip s)"
  then show "fix_image_url (Some s) rid t = Some (strip s)"
    by (simp add: fix_image_url_Some)
next
  assume "\<not> absolute_url (strip s) \<and> bare_image_name (strip s)"
  then show "fix_image_url (Some s) rid t
             = Some (''https://img.spoonacular.com/recipes/'' @ strip s)"
    by (simp add: fix_image_url_Some)
next
  assume "val = None
          \<or> (\<exists>x. val = Some x \<and> \<not> absolute_url (strip x) \<and> \<not> bare_image_name (strip x))"
  then have "fix_image_url val rid t = build_img_from_id rid t"
    by (auto simp: fix_image_url_None fix_image_url_Some)
  then show "fix_image_url val rid t =
          (case rid of
             None \<Rightarrow> None
           | Some i \<Rightarrow>
               (case t of
                  None \<Rightarrow> None
                | Some ty \<Rightarrow>
                    if ty = [] then None
                    else Some (''https://img.spoonacular.com/recipes/'' @ str_int i
                               @ ''-556x370.'' @ ty)))"
    by (simp only: build_img_from_id_cases)
next
  fix u
  assume r: "fix_image_url val rid t = Some u"
  show "absolute_url u"
  proof (cases val)
    case None
    with r show ?thesis by (simp add: fix_image_url_None build_img_absolute)
  next
    case (Some x)
    with r show ?thesis
      using absolute_cdn [of "strip x"]
      by (auto simp: fix_image_url_Some build_img_absolute split: if_splits)
  qed
qed

theorem fix_image_url_resolution_witness:
  "fix_image_url (Some ''  https://x.org/a.png '') None None = Some ''https://x.org/a.png''
   \<and> fix_image_url (Some ''abc.jpg'') None None
       = Some ''https://img.spoonacular.com/recipes/abc.jpg''
   \<and> fix_image_url None (Some 123) (Some ''jpg'')
       = Some ''https://img.spoonacular.com/recipes/123-556x370.jpg''
   \<and> fix_image_url None None None = None
   \<and> absolute_url ''https://img.spoonacular.com/recipes/123-556x370.jpg''"
proof -
  have a: "absolute_url (strip ''  https://x.org/a.png '')" by code_simp
  have a': "strip ''  https://x.org/a.png '' = ''https://x.org/a.png''" by code_simp
  have b: "\<not> absolute_url (strip ''abc.jpg'') \<and> bare_image_name (strip ''abc.jpg'')"
    by code_simp
  have b': "strip ''abc.jpg'' = ''abc.jpg''" by code_simp
  have c: "str_int 123 = ''123''" by code_simp
  note th = fix_image_url_resolution
  have 1: "fix_image_url (Some ''  https://x.org/a.png '') None None = Some ''https://x.org/a.png''"
    using mp [OF conjunct1 [OF th [of "''  https://x.org/a.png ''" None None None]] a]
    by (simp only: a')
  have 2: "fix_image_url (Some ''abc.jpg'') None None
       = Some ''https://img.spoonacular.com/recipes/abc.jpg''"
    using mp [OF conjunct1 [OF conjunct2 [OF th [of "''abc.jpg''" None None None]]] b]
    by (simp add: b')
  have 3: "fix_image_url None (Some 123) (Some ''jpg'')
       = Some ''https://img.spoonacular.com/recipes/123-556x370.jpg''"
    using conjunct1 [OF conjunct2 [OF conjunct2 [OF th [of "[]" "Some 123" "Some ''jpg''" None]]]]
    by (simp add: c)
  have 4: "fix_image_url None None None = None"
    using conjunct1 [OF conjunct2 [OF conjunct2 [OF th [of "[]" None None None]]]]
    by simp
  have 5: "absolute_url ''https://img.spoonacular.com/recipes/123-556x370.jpg''"
    using conjunct2 [OF conjunct2 [OF conjunct2 [OF th [of "[]" "Some 123" "Some ''jpg''" None]]]] 3
    by simp
  from 1 2 3 4 5 show ?thesis by (intro conjI)
qed

section \<open>Properties of the diet normalization\<close>

lemma diet_param_sent:
  "map_of (complex_search_params ings dn n) ''diet'' = (if truthy dn then dn else None)"
  by (auto simp: complex_search_params_def Let_def update_conv' truthy_def or_str_def
      split: option.splits)

lemma lower_Nil [simp]: "lower [] = []"
  by (simp add: lower_def)

lemma diet_norm_Some:
  "diet_norm (Some d) =
     (if lower d = ''keto'' then Some ''ketogenic''
      else if lower d = ''gluten-free'' then Some ''gluten free''
      else if lower d = ''paleo'' then Some ''paleolithic''
      else if lower d = ''none'' then None
      else Some d)"
proof (cases "d = []")
  case True
  then show ?thesis by (simp add: diet_norm_def diet_map_def or_str_def)
next
  case False
  then show ?thesis by (simp add: diet_norm_def diet_map_def or_str_def)
qed

text \<open>
  C6, as stated, fails for unrecognized diet names: \<open>"vegan"\<close> is not a key of
  \<open>diet_map\<close>, and the \<open>.get\<close> default hands the name back, so \<open>diet=vegan\<close> is sent to the
  provider instead of no diet parameter.
\<close>

theorem diet_unrecognized_counterexample:
  "map_of diet_map (Some (lower ''vegan'')) = None
   \<and> diet_norm (Some ''vegan'') = Some ''vegan''
   \<and> map_of (complex_search_params [''egg''] (diet_norm (Some ''vegan'')) 10) ''diet''
       = Some ''vegan''"
  by code_simp

text \<open>
  C6, amended. In the list-request path a diet name is mapped case-insensitively:
  \<open>"keto"\<close> to \<open>"ketogenic"\<close>, \<open>"gluten-free"\<close> to \<open>"gluten free"\<close>, \<open>"paleo"\<close> to
  \<open>"paleolithic"\<close>; \<open>"none"\<close> (in any case), an absent diet and the empty string give the
  absent filter, with no diet parameter in the request; every other diet name is sent
  to the provider unchanged.
\<close>

theorem diet_norm_cases:
  "(lower d = ''keto'' \<longrightarrow>
      map_of (complex_search_params ings (diet_norm (Some d)) n) ''diet'' = Some ''ketogenic'')
   \<and> (lower d = ''gluten-free'' \<longrightarrow>
      map_of (complex_search_params ings (diet_norm (Some d)) n) ''diet'' = Some ''gluten free'')
   \<and> (lower d = ''paleo'' \<longrightarrow>
      map_of (complex_search_params ings (diet_norm (Some d)) n) ''diet'' = Some ''paleolithic'')
   \<and> (lower d = ''none'' \<longrightarrow>
      map_of (complex_search_params ings (diet_norm (Some d)) n) ''diet'' = None)
   \<and> map_of (complex_search_params ings (diet_norm None) n) ''diet'' = None
   \<and> map_of (complex_search_params ings (diet_norm (Some [])) n) ''diet'' = None
   \<and> (d \<noteq> [] \<and> lower d \<notin> {''keto'', ''gluten-free'', ''paleo'', ''none''} \<longrightarrow>
      map_of (complex_search_params ings (diet_norm (Some d)) n) ''diet'' = Some d)"
proof (intro conjI impI)
  assume "lower d = ''keto''"
  then show "map_of (complex_search_params ings (diet_norm (Some d)) n) ''diet'' = Some ''ketogenic''"
    by (simp add: diet_param_sent diet_norm_Some truthy_def)
next
  assume "lower d = ''gluten-free''"
  then show "map_of (complex_search_params ings (diet_norm (Some d)) n) ''diet'' = Some ''gluten free''"
    by (simp add: diet_param_sent diet_norm_Some truthy_def)
next
  assume "lower d = ''paleo''"
  then show "map_of (complex_search_params ings (diet_norm (Some d)) n) ''diet'' = Some ''paleolithic''"
    by (simp add: diet_param_sent diet_norm_Some truthy_def)
next
  assume "lower d = ''none''"
  then show "map_of (complex_search_params ings (diet_norm (Some d)) n) ''diet'' = None"
    by (simp add: diet_param_sent diet_norm_Some truthy_def)
next
  show "map_of (complex_search_params ings (diet_norm None) n) ''diet'' = None"
    by (simp add: diet_param_sent diet_norm_def diet_map_def or_str_def truthy_def)
next
  show "map_of (complex_search_params ings (diet_norm (Some [])) n) ''diet'' = None"
    by (simp add: diet_param_sent diet_norm_Some truthy_def)
next
  assume "d \<noteq> [] \<and> lower d \<notin> {''keto'', ''gluten-free'', ''paleo'', ''none''}"
  then show "map_of (complex_search_params ings (diet_norm (Some d)) n) ''diet'' = Some d"
    by (simp add: diet_param_sent diet_norm_Some truthy_def)
qed

theorem diet_norm_cases_witness:
  "map_of (complex_search_params [''egg''] (diet_norm (Some ''Keto'')) 10) ''diet''
     = Some ''ketogenic''
   \<and> map_of (complex_search_params [''egg''] (diet_norm (Some ''NONE'')) 10) ''diet'' = None
   \<and> map_of (complex_search_params [''egg''] (diet_norm (Some ''Vegan'')) 10) ''diet''
     = Some ''Vegan''"
proof -
  have a: "lower ''Keto'' = ''keto''" by code_simp
  have b: "lower ''NONE'' = ''none''" by code_simp
  have c: "''Vegan'' \<noteq> [] \<and> lower ''Vegan'' \<notin> {''keto'', ''gluten-free'', ''paleo'', ''none''}"
    by code_simp
  have k: "map_of (complex_search_params [''egg''] (diet_norm (Some ''Keto'')) 10) ''diet''
     = Some ''ketogenic''"
    by (rule mp [OF conjunct1 [OF diet_norm_cases [of "''Keto''" "[''egg'']" 10]] a])
  have n: "map_of (complex_search_params [''egg''] (diet_norm (Some ''NONE'')) 10) ''diet'' = None"
    by (rule mp [OF conjunct1 [OF conjunct2 [OF conjunct2 [OF conjunct2
          [OF diet_norm_cases [of "''NONE''" "[''egg'']" 10]]]]] b])
  have v: "map_of (complex_search_params [''egg''] (diet_norm (Some ''Vegan'')) 10) ''diet''
     = Some ''Vegan''"
    by (rule mp [OF conjunct2 [OF conjunct2 [OF conjunct2 [OF conjunct2 [OF conjunct2
          [OF conjunct2 [OF diet_norm_cases [of "''Vegan''" "[''egg'']" 10]]]]]]] c])
  from k n v show ?thesis by (intro conjI)
qed

section \<open>Properties of the key pool\<close>

text \<open>
  C10. With an empty key pool \<open>call_spoonacular\<close> returns \<open>None\<close> for every endpoint and
  every parameter set, raises nothing, sends no request (the log of outbound requests
  is unchanged), and leaves the pool index at 0.
\<close>

theorem call_spoonacular_empty_pool:
  "call_spoonacular [] nt ep ps s = (Inr None, s\<lparr>key_index := 0\<rparr>)"
  by (simp add: call_spoonacular_def current_key_def)

lemma attempts_blank:
  assumes "pool \<noteq> []" and "key_index s < length pool" and "strip (pool ! key_index s) = []"
  shows "attempts pool nt ep n (Suc m) ps s
         = attempts pool nt ep n m ps (s\<lparr>key_index := (key_index s + 1) mod n\<rparr>)"
  using assms by (simp add: current_key_def)

lemma attempts_rotate:
  assumes "pool \<noteq> []" and "key_index s < length pool" and "strip (pool ! key_index s) \<noteq> []"
    and "rotates (nt (length (sent s))
           \<lparr>endpoint = ''https://api.spoonacular.com'' @ ep,
            params = AList.update ''apiKey'' (strip (pool ! key_index s)) ps\<rparr>)"
  shows "attempts pool nt ep n (Suc m) ps s
         = attempts pool nt ep n m (AList.update ''apiKey'' (strip (pool ! key_index s)) ps)
             (s\<lparr>sent := sent s @
                 [\<lparr>endpoint = ''https://api.spoonacular.com'' @ ep,
                   params = AList.update ''apiKey'' (strip (pool ! key_index s)) ps\<rparr>],
               key_index := (key_index s + 1) mod n\<rparr>)"
  using assms by (simp add: current_key_def rotates_def Let_def split: outcome.splits)

lemma attempts_return:
  assumes "pool \<noteq> []" and "key_index s < length pool" and "strip (pool ! key_index s) \<noteq> []"
    and "nt (length (sent s))
           \<lparr>endpoint = ''https://api.spoonacular.com'' @ ep,
            params = AList.update ''apiKey'' (strip (pool ! key_index s)) ps\<rparr> = Returned r"
    and "\<not> rotate_status (status_code r)"
  shows "attempts pool nt ep n (Suc m) ps s
         = (Inr (Some r),
            s\<lparr>sent := sent s @
                 [\<lparr>endpoint = ''https://api.spoonacular.com'' @ ep,
                   params = AList.update ''apiKey'' (strip (pool ! key_index s)) ps\<rparr>]\<rparr>)"
  using assms by (simp add: current_key_def Let_def)

lemma pass_post_zero: "key_index s < length pool \<Longrightarrow> pass_post pool nt 0 s None [] s"
  by (simp add: pass_post_def)

lemma pass_post_return:
  assumes "key_index s < length pool"
    and "map_of (params req) ''apiKey'' = Some (strip (pool ! key_index s))"
    and "nt (length (sent s)) req = Returned r" and "\<not> rotate_status (status_code r)"
  shows "pass_post pool nt (Suc m) s (Some r) [req] (s\<lparr>sent := sent s @ [req]\<rparr>)"
  using assms by (simp add: pass_post_def)

lemma pass_post_blank:
  assumes "key_index s < length pool" and "strip (pool ! key_index s) = []"
    and "pass_post pool nt m (s\<lparr>key_index := (key_index s + 1) mod length pool\<rparr>) res new s'"
  shows "pass_post pool nt (Suc m) s res new s'"
proof -
  have blank: "\<not> (\<forall>k \<in> set pool. strip k \<noteq> [])"
    using assms(1,2) nth_mem by blast
  have idx: "((key_index s + 1) mod length pool + m) mod length pool
             = (key_index s + Suc m) mod length pool"
    by (simp add: mod_add_left_eq)
  from assms(3) blank idx show ?thesis
    by (auto simp: pass_post_def split: option.splits)
qed


lemma pass_post_rotate:
  assumes i: "key_index s < length pool"
    and key: "map_of (params req) ''apiKey'' = Some (strip (pool ! key_index s))"
    and rot: "rotates (nt (length (sent s)) req)"
    and post: "pass_post pool nt m
                 (s\<lparr>sent := sent s @ [req], key_index := (key_index s + 1) mod length pool\<rparr>)
                 res new s'"
  shows "pass_post pool nt (Suc m) s res (req # new) s'"
proof -
  let ?d = "case res of None \<Rightarrow> 0 | Some r \<Rightarrow> (1::nat)"
  have idx: "\<And>k. ((key_index s + 1) mod length pool + k) mod length pool
             = (key_index s + Suc k) mod length pool"
    by (simp add: mod_add_left_eq)
  have rots: "\<forall>j < length (req # new) - ?d. rotates (nt (length (sent s) + j) ((req # new) ! j))"
  proof (intro allI impI)
    fix j
    assume j: "j < length (req # new) - ?d"
    show "rotates (nt (length (sent s) + j) ((req # new) ! j))"
    proof (cases j)
      case 0
      with rot show ?thesis by simp
    next
      case (Suc j')
      with j have "j' < length new - ?d" by (simp split: option.splits)
      with post have "rotates (nt (length (sent s) + 1 + j') (new ! j'))"
        by (simp add: pass_post_def)
      with Suc show ?thesis by simp
    qed
  qed
  have keys: "\<forall>j < length (req # new).
               map_of (params ((req # new) ! j)) ''apiKey''
                 = Some (strip (pool ! ((key_index s + j) mod length pool)))"
    if nb: "\<forall>k \<in> set pool. strip k \<noteq> []"
  proof (intro allI impI)
    fix j
    assume j: "j < length (req # new)"
    show "map_of (params ((req # new) ! j)) ''apiKey''
            = Some (strip (pool ! ((key_index s + j) mod length pool)))"
    proof (cases j)
      case 0
      with key i show ?thesis by simp
    next
      case (Suc j')
      with j have "j' < length new" by simp
      with post nb have "map_of (params (new ! j')) ''apiKey''
            = Some (strip (pool ! (((key_index s + 1) mod length pool + j') mod length pool)))"
        by (simp add: pass_post_def)
      with Suc idx [of j'] show ?thesis by simp
    qed
  qed
  show ?thesis
  proof (cases res)
    case None
    with post rots keys idx [of m] show ?thesis
      by (simp add: pass_post_def)
  next
    case (Some r)
    with post have ne: "new \<noteq> []" by (simp add: pass_post_def)
    then obtain x xs where new: "new = x # xs" by (cases new) auto
    from Some post rots keys new idx [of "length xs"] show ?thesis
      by (simp add: pass_post_def)
  qed
qed

lemma attempts_pass_post:
  assumes "pool \<noteq> []" and "key_index s < length pool"
  shows "\<exists>res new s'. attempts pool nt ep (length pool) m ps s = (Inr res, s')
                       \<and> pass_post pool nt m s res new s'"
  using assms(2)
proof (induction m arbitrary: s ps)
  case 0
  then show ?case by (auto intro: pass_post_zero)
next
  case (Suc m)
  let ?k = "strip (pool ! key_index s)"
  let ?req = "\<lparr>endpoint = ''https://api.spoonacular.com'' @ ep,
               params = AList.update ''apiKey'' ?k ps\<rparr>"
  have next_idx: "(key_index s + 1) mod length pool < length pool"
    using assms(1) by simp
  have key: "map_of (params ?req) ''apiKey'' = Some ?k"
    by (simp add: update_conv')
  show ?case
  proof (cases "?k = []")
    case True
    let ?s1 = "s\<lparr>key_index := (key_index s + 1) mod length pool\<rparr>"
    from Suc.IH [of ?s1 ps] next_idx obtain res new s'
      where a: "attempts pool nt ep (length pool) m ps ?s1 = (Inr res, s')"
        and p: "pass_post pool nt m ?s1 res new s'"
      by auto
    from a have "attempts pool nt ep (length pool) (Suc m) ps s = (Inr res, s')"
      using attempts_blank [OF assms(1) Suc.prems True] by simp
    moreover from p have "pass_post pool nt (Suc m) s res new s'"
      by (rule pass_post_blank [OF Suc.prems True])
    ultimately show ?thesis by blast
  next
    case False
    show ?thesis
    proof (cases "rotates (nt (length (sent s)) ?req)")
      case True
      let ?s1 = "s\<lparr>sent := sent s @ [?req], key_index := (key_index s + 1) mod length pool\<rparr>"
      from Suc.IH [of ?s1 "AList.update ''apiKey'' ?k ps"] next_idx obtain res new s'
        where a: "attempts pool nt ep (length pool) m (AList.update ''apiKey'' ?k ps) ?s1
                  = (Inr res, s')"
          and p: "pass_post pool nt m ?s1 res new s'"
        by auto
      from a have "attempts pool nt ep (length pool) (Suc m) ps s = (Inr res, s')"
        using attempts_rotate [where nt = nt and ep = ep and ps = ps and s = s,
            OF assms(1) Suc.prems False True] by simp
      moreover from p have "pass_post pool nt (Suc m) s res (?req # new) s'"
        by (rule pass_post_rotate [where nt = nt and req = "?req" and s = s,
              OF Suc.prems key True])
      ultimately show ?thesis by blast
    next
      case nr: False
      then obtain r where r: "nt (length (sent s)) ?req = Returned r"
        and ok: "\<not> rotate_status (status_code r)"
        by (auto simp: rotates_def split: outcome.splits)
      have "attempts pool nt ep (length pool) (Suc m) ps s
            = (Inr (Some r), s\<lparr>sent := sent s @ [?req]\<rparr>)"
        by (rule attempts_return [where nt = nt and ep = ep and ps = ps and s = s,
              OF assms(1) Suc.prems False r ok])
      moreover have "pass_post pool nt (Suc m) s (Some r) [?req] (s\<lparr>sent := sent s @ [?req]\<rparr>)"
        by (rule pass_post_return [where nt = nt and req = "?req" and s = s,
              OF Suc.prems key r ok])
      ultimately show ?thesis by blast
    qed
  qed
qed

text \<open>
  C2. For a key pool of length \<open>n \<ge> 1\<close> with the index inside the pool, and every
  behaviour of the network: \<open>call_spoonacular\<close> raises nothing, sends at most \<open>n\<close> requests,
  and leaves the index inside the pool. Every request before the returned one (every
  request, when \<open>None\<close> is returned) ended with status 401, 402 or 429 or with a network
  error. When a response is returned it is the outcome of the last request, its status
  is outside 401, 402, 429, and the index points at the key that request carried. When
  \<open>None\<close> is returned the index is back at its starting value (advanced by \<open>n\<close> modulo
  \<open>n\<close>). When no key of the pool is blank, the \<open>j\<close>-th request carries the key at index
  (start + \<open>j\<close>) modulo \<open>n\<close>, so each failed attempt advanced the index by one; \<open>None\<close> is
  returned only after exactly \<open>n\<close> attempts, and a returned response leaves the index
  advanced by the number of failed attempts.
\<close>

theorem call_spoonacular_rotation:
  assumes "pool \<noteq> []" and "key_index s < length pool"
  shows "\<exists>res new s'.
           call_spoonacular pool nt ep ps s = (Inr res, s')
           \<and> sent s' = sent s @ new \<and> length new \<le> length pool
           \<and> key_index s' < length pool
           \<and> (\<forall>j < length new - (case res of None \<Rightarrow> 0 | Some r \<Rightarrow> 1).
                 rotates (nt (length (sent s) + j) (new ! j)))
           \<and> (case res of
                 None \<Rightarrow> key_index s' = key_index s
               | Some r \<Rightarrow>
                   new \<noteq> [] \<and> nt (length (sent s) + (length new - 1)) (last new) = Returned r
                   \<and> \<not> rotate_status (status_code r)
                   \<and> map_of (params (last new)) ''apiKey'' = Some (strip (pool ! key_index s')))
           \<and> ((\<forall>k \<in> set pool. strip k \<noteq> []) \<longrightarrow>
                 (\<forall>j < length new.
                    map_of (params (new ! j)) ''apiKey''
                      = Some (strip (pool ! ((key_index s + j) mod length pool))))
                 \<and> (case res of
                      None \<Rightarrow> length new = length pool
                    | Some r \<Rightarrow>
                        key_index s' = (key_index s + (length new - 1)) mod length pool))"
proof -
  from assms(1) have n: "max 1 (length pool) = length pool"
    by (cases pool) simp_all
  from attempts_pass_post [OF assms, of nt ep "length pool" ps] obtain res new s'
    where a: "attempts pool nt ep (length pool) (length pool) ps s = (Inr res, s')"
      and p: "pass_post pool nt (length pool) s res new s'"
    by blast
  from a n have "call_spoonacular pool nt ep ps s = (Inr res, s')"
    by (simp add: call_spoonacular_def)
  moreover from assms(2) have "(key_index s + length pool) mod length pool = key_index s"
    by simp
  ultimately show ?thesis
    using p unfolding pass_post_def
    by (intro exI [of _ res] exI [of _ new] exI [of _ s']) (simp split: option.splits)
qed

theorem call_spoonacular_rotation_witness:
  "pool3 \<noteq> [] \<and> key_index \<lparr>key_index = 0, sent = []\<rparr> < length pool3
   \<and> call_spoonacular pool3 net_third_succeeds ''/recipes/complexSearch'' [(''number'', ''10'')]
         \<lparr>key_index = 0, sent = []\<rparr>
       = (Inr (Some \<lparr>status_code = 200, json = Some []\<rparr>),
          \<lparr>key_index = 2,
           sent = [\<lparr>endpoint = ''https://api.spoonacular.com/recipes/complexSearch'',
                    params = [(''number'', ''10''), (''apiKey'', ''key-a'')]\<rparr>,
                   \<lparr>endpoint = ''https://api.spoonacular.com/recipes/complexSearch'',
                    params = [(''number'', ''10''), (''apiKey'', ''key-b'')]\<rparr>,
                   \<lparr>endpoint = ''https://api.spoonacular.com/recipes/complexSearch'',
                    params = [(''number'', ''10''), (''apiKey'', ''key-c'')]\<rparr>]\<rparr>)
   \<and> key_index (snd (call_spoonacular pool3 net_third_succeeds ''/recipes/complexSearch''
         [(''number'', ''10'')] \<lparr>key_index = 0, sent = []\<rparr>)) < length pool3
   \<and> length (sent (snd (call_spoonacular pool3 net_third_succeeds ''/recipes/complexSearch''
         [(''number'', ''10'')] \<lparr>key_index = 0, sent = []\<rparr>))) \<le> length pool3"
proof -
  let ?call = "call_spoonacular pool3 net_third_succeeds ''/recipes/complexSearch''
         [(''number'', ''10'')] \<lparr>key_index = 0, sent = []\<rparr>"
  have h1: "pool3 \<noteq> []"
    by (simp add: pool3_def)
  have h2: "key_index \<lparr>key_index = 0, sent = []\<rparr> < length pool3"
    by (simp add: pool3_def)
  have ev: "?call
       = (Inr (Some \<lparr>status_code = 200, json = Some []\<rparr>),
          \<lparr>key_index = 2,
           sent = [\<lparr>endpoint = ''https://api.spoonacular.com/recipes/complexSearch'',
                    params = [(''number'', ''10''), (''apiKey'', ''key-a'')]\<rparr>,
                   \<lparr>endpoint = ''https://api.spoonacular.com/recipes/complexSearch'',
                    params = [(''number'', ''10''), (''apiKey'', ''key-b'')]\<rparr>,
                   \<lparr>endpoint = ''https://api.spoonacular.com/recipes/complexSearch'',
                    params = [(''number'', ''10''), (''apiKey'', ''key-c'')]\<rparr>]\<rparr>)"
    by code_simp
  from call_spoonacular_rotation [OF h1 h2, of net_third_succeeds "''/recipes/complexSearch''"
      "[(''number'', ''10'')]"]
  obtain res new s' where c: "?call = (Inr res, s')"
    and b: "sent s' = sent \<lparr>key_index = 0, sent = []\<rparr> @ new" "length new \<le> length pool3"
      "key_index s' < length pool3"
    by blast
  from c b have "key_index (snd ?call) < length pool3 \<and> length (sent (snd ?call)) \<le> length pool3"
    by simp
  with h1 h2 ev show ?thesis
    by (intro conjI) (rule h1, rule h2, rule ev, simp_all)
qed

text \<open>
  The all-fail case on three keys: payment-required and network errors alternate, \<open>None\<close>
  is returned after three requests and the index is back at its start.
\<close>

lemma call_spoonacular_all_rotate_example:
  "fst (call_spoonacular pool3 net_all_rotate ''/recipes/complexSearch'' [(''number'', ''10'')]
       \<lparr>key_index = 1, sent = []\<rparr>) = Inr None
    \<and> key_index (snd (call_spoonacular pool3 net_all_rotate ''/recipes/complexSearch'' [(''number'', ''10'')]
       \<lparr>key_index = 1, sent = []\<rparr>)) = 1
    \<and> length (sent (snd (call_spoonacular pool3 net_all_rotate ''/recipes/complexSearch'' [(''number'', ''10'')]
       \<lparr>key_index = 1, sent = []\<rparr>))) = 3"
  by code_simp

section \<open>Properties of the recipe list request\<close>

lemma attempts_log:
  "attempts pool nt ep n m ps s = (x, s') \<Longrightarrow>
     \<exists>new. sent s' = sent s @ new
           \<and> (\<forall>r. x = Inr (Some r) \<longrightarrow>
                 new \<noteq> [] \<and> nt (length (sent s') - 1) (last new) = Returned r)"
proof (induction m arbitrary: s ps)
  case 0
  then show ?case by auto
next
  case (Suc m)
  show ?case
  proof (cases "current_key pool s")
    case (Inl err)
    with Suc.prems show ?thesis by auto
  next
    case (Inr k)
    show ?thesis
    proof (cases "k = []")
      case True
      with Inr Suc.prems
      have "attempts pool nt ep n m ps (s\<lparr>key_index := (key_index s + 1) mod n\<rparr>) = (x, s')"
        by simp
      from Suc.IH [OF this] show ?thesis by simp
    next
      case False
      let ?req = "\<lparr>endpoint = ''https://api.spoonacular.com'' @ ep,
                   params = AList.update ''apiKey'' k ps\<rparr>"
      let ?s1 = "s\<lparr>sent := sent s @ [?req], key_index := (key_index s + 1) mod n\<rparr>"
      have step: ?thesis
        if a: "attempts pool nt ep n m (AList.update ''apiKey'' k ps) ?s1 = (x, s')"
      proof -
        from Suc.IH [OF a] obtain new where new: "sent s' = sent ?s1 @ new"
          and r: "\<forall>r. x = Inr (Some r) \<longrightarrow>
                 new \<noteq> [] \<and> nt (length (sent s') - 1) (last new) = Returned r"
          by blast
        from new have "sent s' = sent s @ (?req # new)" by simp
        moreover from r have "\<forall>r. x = Inr (Some r) \<longrightarrow>
                 ?req # new \<noteq> [] \<and> nt (length (sent s') - 1) (last (?req # new)) = Returned r"
          by auto
        ultimately show ?thesis by blast
      qed
      show ?thesis
      proof (cases "nt (length (sent s)) ?req")
        case Raised
        with Inr False Suc.prems show ?thesis by (intro step) (simp add: Let_def)
      next
        case (Returned r')
        show ?thesis
        proof (cases "rotate_status (status_code r')")
          case True
          with Returned Inr False Suc.prems show ?thesis by (intro step) (simp add: Let_def)
        next
          case nr: False
          with Returned Inr False Suc.prems
          have "x = Inr (Some r')" and "s' = s\<lparr>sent := sent s @ [?req]\<rparr>"
            by (simp_all add: Let_def)
          with Returned show ?thesis by (intro exI [of _ "[?req]"]) simp
        qed
      qed
    qed
  qed
qed

lemma call_spoonacular_log:
  "call_spoonacular pool nt ep ps s = (x, s') \<Longrightarrow>
     \<exists>new. sent s' = sent s @ new
           \<and> (\<forall>r. x = Inr (Some r) \<longrightarrow>
                 new \<noteq> [] \<and> nt (length (sent s') - 1) (last new) = Returned r)"
  unfolding call_spoonacular_def Let_def by (rule attempts_log)


lemma sent_save_and_return:
  "save_and_return e key items xs w = (ys, w') \<Longrightarrow> sent w' = sent w"
  by (auto simp: save_and_return_def Let_def split: if_splits)

lemma last_request_in_log:
  assumes "sent s' = sent s @ new" and "new \<noteq> []"
  shows "length (sent s) \<le> length (sent s') - 1 \<and> length (sent s') - 1 < length (sent s')
         \<and> sent s' ! (length (sent s') - 1) = last new"
proof -
  from assms have "sent s' \<noteq> []" by simp
  then have "sent s' ! (length (sent s') - 1) = last (sent s')"
    by (simp add: last_conv_nth)
  with assms show ?thesis by (cases new) auto
qed

lemma primary_flow:
  assumes "primary e key items entry ingredients dn number w = f"
  shows "\<exists>new. sent (flow_world f) = sent w @ new
          \<and> (f = Next (flow_world f) \<or> f = Return (fallback e entry) (flow_world f)
              \<or> (\<exists>j. length (sent w) \<le> j \<and> j < length (sent (flow_world f))
                       \<and> \<not> fruitless (net e j (sent (flow_world f) ! j))))"
proof -
  obtain x w1 where c: "call_spoonacular (KEYS e) (net e) ''/recipes/complexSearch''
             (complex_search_params ingredients dn number) w = (x, w1)"
    by (cases "call_spoonacular (KEYS e) (net e) ''/recipes/complexSearch''
             (complex_search_params ingredients dn number) w") auto
  from call_spoonacular_log [OF c] obtain new where new: "sent w1 = sent w @ new"
    and ret: "\<forall>r. x = Inr (Some r) \<longrightarrow>
                 new \<noteq> [] \<and> net e (length (sent w1) - 1) (last new) = Returned r"
    by blast
  show ?thesis
  proof (cases x)
    case (Inl err)
    with c assms new show ?thesis by (auto simp: primary_def)
  next
    case (Inr res)
    show ?thesis
    proof (cases res)
      case None
      with Inr c assms new show ?thesis by (auto simp: primary_def)
    next
      case (Some r)
      with Inr ret have ne: "new \<noteq> []"
        and r: "net e (length (sent w1) - 1) (last new) = Returned r"
        by auto
      show ?thesis
      proof (cases "status_code r = 200 \<and> json r \<noteq> None \<and> json r \<noteq> Some []")
        case False
        with Some Inr c assms have "f = Next w1"
          by (auto simp: primary_def Let_def split: option.splits)
        with new show ?thesis by auto
      next
        case True
        then obtain rs where rs: "json r = Some rs" "rs \<noteq> []" by auto
        obtain ys w2 where sv: "save_and_return e key items (map complex_summary rs) w1 = (ys, w2)"
          by (cases "save_and_return e key items (map complex_summary rs) w1") auto
        with True rs Some Inr c assms have f: "f = Return ys w2"
          by (auto simp: primary_def Let_def)
        from sv have s2: "sent w2 = sent w1" by (rule sent_save_and_return)
        from last_request_in_log [OF new ne] r True
        have "length (sent w) \<le> length (sent w1) - 1 \<and> length (sent w1) - 1 < length (sent w1)
              \<and> \<not> fruitless (net e (length (sent w1) - 1) (sent w1 ! (length (sent w1) - 1)))"
          by (simp add: fruitless_def)
        with f s2 new show ?thesis by auto
      qed
    qed
  qed
qed


lemma secondary_flow:
  assumes "secondary e key items entry ingredients number w = f"
  shows "\<exists>new. sent (flow_world f) = sent w @ new
          \<and> (f = Next (flow_world f) \<or> f = Return (fallback e entry) (flow_world f)
              \<or> (\<exists>j. length (sent w) \<le> j \<and> j < length (sent (flow_world f))
                       \<and> \<not> fruitless (net e j (sent (flow_world f) ! j))))"
proof -
  obtain x w1 where c: "call_spoonacular (KEYS e) (net e) ''/recipes/findByIngredients''
             (find_by_ingredients_params ingredients number) w = (x, w1)"
    by (cases "call_spoonacular (KEYS e) (net e) ''/recipes/findByIngredients''
             (find_by_ingredients_params ingredients number) w") auto
  from call_spoonacular_log [OF c] obtain new where new: "sent w1 = sent w @ new"
    and ret: "\<forall>r. x = Inr (Some r) \<longrightarrow>
                 new \<noteq> [] \<and> net e (length (sent w1) - 1) (last new) = Returned r"
    by blast
  show ?thesis
  proof (cases x)
    case (Inl err)
    with c assms new show ?thesis by (auto simp: secondary_def)
  next
    case (Inr res)
    show ?thesis
    proof (cases res)
      case None
      with Inr c assms new show ?thesis by (auto simp: secondary_def)
    next
      case (Some r)
      with Inr ret have ne: "new \<noteq> []"
        and r: "net e (length (sent w1) - 1) (last new) = Returned r"
        by auto
      show ?thesis
      proof (cases "status_code r = 200 \<and> json r \<noteq> None \<and> json r \<noteq> Some []")
        case False
        with Some Inr c assms have "f = Next w1"
          by (auto simp: secondary_def Let_def split: option.splits)
        with new show ?thesis by auto
      next
        case True
        then obtain rs where rs: "json r = Some rs" "rs \<noteq> []" by auto
        obtain ys w2 where sv: "save_and_return e key items (map find_summary rs) w1 = (ys, w2)"
          by (cases "save_and_return e key items (map find_summary rs) w1") auto
        with True rs Some Inr c assms have f: "f = Return ys w2"
          by (auto simp: secondary_def Let_def)
        from sv have s2: "sent w2 = sent w1" by (rule sent_save_and_return)
        from last_request_in_log [OF new ne] r True
        have "length (sent w) \<le> length (sent w1) - 1 \<and> length (sent w1) - 1 < length (sent w1)
              \<and> \<not> fruitless (net e (length (sent w1) - 1) (sent w1 ! (length (sent w1) - 1)))"
          by (simp add: fruitless_def)
        with f s2 new show ?thesis by auto
      qed
    qed
  qed
qed


lemma fresh_data_fallback: "fresh_data e entry = Some xs \<Longrightarrow> fallback e entry = xs"
  by (auto simp: fresh_data_def fallback_def split: option.splits if_splits)

text \<open>
  C3. Outside offline mode, when every network attempt the request makes fails or
  comes back without recipes (so both the complexSearch and the findByIngredients
  strategy fail or return empty, or the first already reports total provider failure),
  \<open>spoonacular_recipes\<close> returns the payload of the cache entry stored under the computed
  key when there is one, in particular when that entry is older than the TTL, and the
  offline catalog defaults only when there is no entry for the key.
\<close>

theorem stale_entry_served:
  assumes online: "\<not> offline_mode w"
    and run: "spoonacular_recipes e include_ingredients diet number w = (xs, w')"
    and fail: "\<forall>j. length (sent w) \<le> j \<and> j < length (sent w') \<longrightarrow>
                 fruitless (net e j (sent w' ! j))"
  shows "xs = (case map_of (read_items w) (online_key include_ingredients diet number) of
                 Some c \<Rightarrow> data c
               | None \<Rightarrow> load_demo_recipes e)"
proof -
  let ?cleaned = "clean_ingredients include_ingredients"
  let ?ings = "if ?cleaned = [] then [''egg'', ''milk'', ''bread''] else ?cleaned"
  let ?key = "online_key include_ingredients diet number"
  let ?entry = "map_of (read_items w) ?key"
  let ?f1 = "primary e ?key (read_items w) ?entry ?ings (diet_norm diet) number w"
  have key: "cache_key ?ings (Some (or_str (diet_norm diet) ''none'')) number = ?key"
    by (simp add: online_key_def Let_def)
  have "xs = fallback e ?entry"
  proof (cases "fresh_data e ?entry")
    case (Some ys)
    with online key run show ?thesis
      by (simp add: spoonacular_recipes_def Let_def fresh_data_fallback)
  next
    case None
    from primary_flow [OF refl, of e ?key "read_items w" ?entry ?ings "diet_norm diet" number w]
    obtain new1 where n1: "sent (flow_world ?f1) = sent w @ new1"
      and p: "?f1 = Next (flow_world ?f1) \<or> ?f1 = Return (fallback e ?entry) (flow_world ?f1)
              \<or> (\<exists>j. length (sent w) \<le> j \<and> j < length (sent (flow_world ?f1))
                       \<and> \<not> fruitless (net e j (sent (flow_world ?f1) ! j)))"
      by blast
    show ?thesis
    proof (cases ?f1)
      case (Return ys w1)
      with None online key run have res: "xs = ys" "w' = w1"
        by (simp_all add: spoonacular_recipes_def Let_def)
      with Return p fail show ?thesis by auto
    next
      case (Next w1)
      let ?f2 = "secondary e ?key (read_items w) ?entry ?ings number w1"
      from Next n1 have s1: "sent w1 = sent w @ new1" by simp
      from secondary_flow [OF refl, of e ?key "read_items w" ?entry ?ings number w1]
      obtain new2 where n2: "sent (flow_world ?f2) = sent w1 @ new2"
        and q: "?f2 = Next (flow_world ?f2) \<or> ?f2 = Return (fallback e ?entry) (flow_world ?f2)
              \<or> (\<exists>j. length (sent w1) \<le> j \<and> j < length (sent (flow_world ?f2))
                       \<and> \<not> fruitless (net e j (sent (flow_world ?f2) ! j)))"
        by blast
      show ?thesis
      proof (cases ?f2)
        case (Return ys w2)
        with Next None online key run have res: "xs = ys" "w' = w2"
          by (simp_all add: spoonacular_recipes_def Let_def)
        from fail res s1 have "\<forall>j. length (sent w1) \<le> j \<and> j < length (sent w2) \<longrightarrow>
                 fruitless (net e j (sent w2 ! j))"
          by simp
        with Return q res show ?thesis by auto
      next
        case n: (Next w2)
        with Next None online key run show ?thesis
          by (simp add: spoonacular_recipes_def Let_def)
      qed
    qed
  qed
  then show ?thesis by (simp add: fallback_def)
qed

theorem stale_entry_served_witness:
  "\<not> offline_mode world_stale
   \<and> map_of (read_items world_stale) (online_key [''egg''] None 10) = Some stale_entry
   \<and> \<not> is_fresh (utcnow env_failing) (ts stale_entry) CACHE_TTL_DAYS
   \<and> fst (spoonacular_recipes env_failing [''egg''] None 10 world_stale) = data stale_entry
   \<and> length (sent (snd (spoonacular_recipes env_failing [''egg''] None 10 world_stale))) = 2"
proof -
  have online: "\<not> offline_mode world_stale"
    by (simp add: world_stale_def)
  have entry: "map_of (read_items world_stale) (online_key [''egg''] None 10) = Some stale_entry"
    by code_simp
  have stale: "\<not> is_fresh (utcnow env_failing) (ts stale_entry) CACHE_TTL_DAYS"
    by (simp add: is_fresh_def env_failing_def stale_entry_def CACHE_TTL_DAYS_def
        timedelta_days_def)
  have two: "length (sent (snd (spoonacular_recipes env_failing [''egg''] None 10 world_stale))) = 2"
    by code_simp
  obtain xs w' where run: "spoonacular_recipes env_failing [''egg''] None 10 world_stale = (xs, w')"
    by (cases "spoonacular_recipes env_failing [''egg''] None 10 world_stale") auto
  have fail: "\<forall>j. length (sent world_stale) \<le> j \<and> j < length (sent w') \<longrightarrow>
                 fruitless (net env_failing j (sent w' ! j))"
    by (simp add: fruitless_def env_failing_def net_empty_then_error_def)
  from stale_entry_served [OF online run fail] entry run
  have "fst (spoonacular_recipes env_failing [''egg''] None 10 world_stale) = data stale_entry"
    by simp
  with online entry stale two show ?thesis
    by (intro conjI)
qed

text \<open>
  The same failing provider with no cache entry for the key gives the built-in offline
  catalog. In offline mode no network strategy is tried, and a stale entry is passed
  over for the offline catalog.
\<close>

lemma no_entry_defaults_example:
  "fst (spoonacular_recipes env_failing [''rice''] None 10 world_stale)
   = [demo_summary 910001 ''Masala Khichdi'' 4 0 28,
      demo_summary 910002 ''Paneer Bhurji Wrap'' 5 0 20,
      demo_summary 910003 ''Garlic Butter Pasta'' 3 1 18]"
  by code_simp

lemma offline_stale_defaults_example:
  "fst (spoonacular_recipes env_failing [''egg''] None 10 (world_stale\<lparr>offline_mode := True\<rparr>))
   = load_demo_recipes env_failing"
  by code_simp

section \<open>Properties of the recommender\<close>

lemma sort_values_desc_subset:
  assumes "sort_values_desc argsort scored = Inr sorted_rows"
  shows "set sorted_rows \<subseteq> set scored"
proof -
  from assms obtain indexer where "\<forall>i \<in> set indexer. i < length scored"
    and "sorted_rows = map (\<lambda>i. scored ! i) indexer"
    by (auto simp: sort_values_desc_def split: sum.splits if_splits)
  then show ?thesis by auto
qed

lemma sort_values_desc_error: "sort_values_desc argsort scored = Inl err \<Longrightarrow> err = IndexError"
  by (auto simp: sort_values_desc_def nargsort_desc_def Let_def split: sum.splits if_splits)

lemma set_head_df: "set (head_df n xs) \<subseteq> set xs"
  by (auto simp: head_df_def dest: in_set_takeD)

lemma head_sorted_subset:
  assumes "head_sorted argsort top_k scored = Inr out"
  shows "set out \<subseteq> set scored"
proof -
  from assms obtain sorted_rows where s: "sort_values_desc argsort scored = Inr sorted_rows"
    and o: "out = head_df top_k sorted_rows"
    by (auto simp: head_sorted_def split: sum.splits)
  from o have "set out \<subseteq> set sorted_rows" by (simp add: set_head_df)
  with sort_values_desc_subset [OF s] show ?thesis by blast
qed

lemma head_sorted_error: "head_sorted argsort top_k scored = Inl err \<Longrightarrow> err = IndexError"
  by (auto simp: head_sorted_def split: sum.splits dest: sort_values_desc_error)

text \<open>
  C4. \<open>recommend_from_pantry\<close> fails with the "model not trained" error exactly when one
  of the three artifacts (vectorizer, term matrix, lookup table) is absent: any absent
  artifact gives the error, and with all three present the error is not raised.
\<close>

theorem model_not_trained_iff:
  "(recommend_from_pantry lk argsort art pantry_items top_k diet = Inl ModelNotTrained)
   = (VECT_PATH art = None \<or> MATRIX_PATH art = None \<or> RECIPES_MAP art = None)"
  by (auto simp: recommend_from_pantry_def Let_def split: option.splits
      dest: head_sorted_error)

theorem model_not_trained_iff_witness:
  "recommend_from_pantry scores3 argsort_stable
      \<lparr>VECT_PATH = Some (), MATRIX_PATH = None, RECIPES_MAP = Some catalog3\<rparr>
      [''egg''] 10 None = Inl ModelNotTrained
   \<and> recommend_from_pantry scores3 argsort_stable trained3 [''egg''] 10 None
       \<noteq> Inl ModelNotTrained"
  using model_not_trained_iff [of scores3 argsort_stable
      "\<lparr>VECT_PATH = Some (), MATRIX_PATH = None, RECIPES_MAP = Some catalog3\<rparr>" "[''egg'']" 10 None]
    model_not_trained_iff [of scores3 argsort_stable trained3 "[''egg'']" 10 None]
  by (simp add: trained3_def)


lemma pantry_tokens_blank:
  "(\<forall>i \<in> set pantry_items. strip i = []) \<Longrightarrow> pantry_tokens pantry_items = []"
  by (simp add: pantry_tokens_def filter_empty_conv)

lemma pantry_query_nonblank:
  assumes "\<exists>i \<in> set pantry_items. strip i \<noteq> []"
  shows "join '' '' (pantry_tokens pantry_items) \<noteq> []"
proof
  assume "join '' '' (pantry_tokens pantry_items) = []"
  then have all: "\<forall>x \<in> set (pantry_tokens pantry_items). x = []" by (rule join_Nil_D)
  from assms obtain i where i: "i \<in> set pantry_items" "strip i \<noteq> []" by blast
  then have "replace_space (strip (lower i)) \<in> set (pantry_tokens pantry_items)"
    by (auto simp: pantry_tokens_def)
  with all have "replace_space (strip (lower i)) = []" by blast
  then have "strip (lower i) = []" by (simp add: replace_space_def)
  with i(2) show False by (simp add: strip_lower_Nil_iff)
qed

lemma blank_pantry_result:
  assumes "VECT_PATH art = Some vec" and "MATRIX_PATH art = Some mat"
    and "RECIPES_MAP art = Some rec_map"
    and "\<forall>i \<in> set pantry_items. strip i = []"
  shows "recommend_from_pantry lk argsort art pantry_items top_k diet
         = Inr (map (\<lambda>r. (r, 0))
             (if 0 \<le> top_k then take (nat top_k) (table_rows rec_map)
              else take (length (table_rows rec_map) - nat (- top_k)) (table_rows rec_map)))"
  using assms by (simp add: recommend_from_pantry_def pantry_tokens_blank head_df_def)

text \<open>
  C5, as stated, fails for a negative \<open>top_k\<close>: with a blank pantry and \<open>top_k = -1\<close> on a
  catalog of three rows the result is the first two rows (all but the last), not the
  first \<open>top_k\<close> rows.
\<close>

theorem empty_pantry_negative_count_counterexample:
  "recommend_from_pantry scores3 argsort_stable trained3 [] (- 1) None
     = Inr [(tofu_bowl, 0), (omelette, 0)]
   \<and> recommend_from_pantry scores3 argsort_stable trained3 [] (- 1) None
     \<noteq> Inr (map (\<lambda>r. (r, 0)) (take (nat (- 1)) (table_rows catalog3)))"
  by code_simp

text \<open>
  C5, amended. With a trained index (all three artifacts present) and a pantry list
  whose items are all empty or whitespace (the empty list included),
  \<open>recommend_from_pantry\<close> returns, without error, catalog rows in stored order, each with
  score 0: for \<open>top_k \<ge> 0\<close> exactly the first \<open>top_k\<close> rows (all rows when the catalog is
  smaller), for \<open>top_k < 0\<close> all rows but the last \<open>-top_k\<close>.
\<close>

theorem empty_pantry_head:
  assumes "VECT_PATH art = Some vec" and "MATRIX_PATH art = Some mat"
    and "RECIPES_MAP art = Some rec_map"
    and "\<forall>i \<in> set pantry_items. strip i = []"
  shows "(0 \<le> top_k \<longrightarrow>
            recommend_from_pantry lk argsort art pantry_items top_k diet
              = Inr (map (\<lambda>r. (r, 0)) (take (nat top_k) (table_rows rec_map))))
       \<and> (top_k < 0 \<longrightarrow>
            recommend_from_pantry lk argsort art pantry_items top_k diet
              = Inr (map (\<lambda>r. (r, 0))
                  (take (length (table_rows rec_map) - nat (- top_k)) (table_rows rec_map))))"
  using blank_pantry_result [OF assms, of lk argsort top_k diet] by simp

theorem empty_pantry_head_witness:
  "recommend_from_pantry scores3 argsort_stable trained3 [''  '', []] 2 None
     = Inr [(tofu_bowl, 0), (omelette, 0)]
   \<and> recommend_from_pantry scores3 argsort_stable trained3 [''  '', []] (- 2) None
     = Inr [(tofu_bowl, 0)]"
proof -
  have blank: "\<forall>i \<in> set [''  '', []]. strip i = []"
    by (simp add: strip_def isspace_def)
  note th = empty_pantry_head [where art = trained3 and rec_map = catalog3
      and lk = scores3 and argsort = argsort_stable and diet = None, OF _ _ _ blank]
  have a: "recommend_from_pantry scores3 argsort_stable trained3 [''  '', []] 2 None
     = Inr [(tofu_bowl, 0), (omelette, 0)]"
    using th [of "()" "()" 2] by (simp add: trained3_def catalog3_def)
  have b: "recommend_from_pantry scores3 argsort_stable trained3 [''  '', []] (- 2) None
     = Inr [(tofu_bowl, 0)]"
    using th [of "()" "()" "- 2"] by (simp add: trained3_def catalog3_def)
  from a b show ?thesis by (intro conjI)
qed

text \<open>
  C9, as stated, fails for a negative \<open>top_k\<close>: with an empty pantry, diet \<open>"keto"\<close> and
  \<open>top_k = -2\<close> on a catalog of three rows the result is the first row (all but the last
  two), not the first \<open>top_k\<close> rows.
\<close>

theorem empty_pantry_diet_negative_count_counterexample:
  "recommend_from_pantry scores3 argsort_stable trained3 [] (- 2) (Some ''keto'')
     = Inr [(tofu_bowl, 0)]
   \<and> recommend_from_pantry scores3 argsort_stable trained3 [] (- 2) (Some ''keto'')
     \<noteq> Inr (map (\<lambda>r. (r, 0)) (take (nat (- 2)) (table_rows catalog3)))"
  by code_simp

text \<open>
  C9, amended. With all three artifacts present: when every pantry item is empty or
  whitespace, \<open>recommend_from_pantry\<close> ignores the diet argument, whatever it is, and
  returns catalog rows with score 0 regardless of their diet tag: the first \<open>top_k\<close> rows
  for \<open>top_k \<ge> 0\<close>, all rows but the last \<open>-top_k\<close> for \<open>top_k < 0\<close>. When some pantry item
  is not blank, a diet is given and the table has a \<open>diet_tag\<close> column, every returned row
  is a catalog row whose diet tag equals the diet up to case.
\<close>

theorem empty_pantry_ignores_diet:
  assumes "VECT_PATH art = Some vec" and "MATRIX_PATH art = Some mat"
    and "RECIPES_MAP art = Some rec_map"
  shows "((\<forall>i \<in> set pantry_items. strip i = []) \<and> 0 \<le> top_k \<longrightarrow>
            recommend_from_pantry lk argsort art pantry_items top_k diet
              = Inr (map (\<lambda>r. (r, 0)) (take (nat top_k) (table_rows rec_map))))
       \<and> ((\<forall>i \<in> set pantry_items. strip i = []) \<and> top_k < 0 \<longrightarrow>
            recommend_from_pantry lk argsort art pantry_items top_k diet
              = Inr (map (\<lambda>r. (r, 0))
                  (take (length (table_rows rec_map) - nat (- top_k)) (table_rows rec_map))))
       \<and> ((\<exists>i \<in> set pantry_items. strip i \<noteq> []) \<and> truthy diet \<and> has_diet_tag rec_map \<longrightarrow>
            (\<forall>out. recommend_from_pantry lk argsort art pantry_items top_k diet = Inr out \<longrightarrow>
               (\<forall>p \<in> set out.
                  fst p \<in> set (table_rows rec_map)
                  \<and> (\<exists>t. diet_tag (fst p) = Some t \<and> lower t = lower (or_str diet [])))))"
proof (intro conjI impI allI)
  assume "(\<forall>i \<in> set pantry_items. strip i = []) \<and> 0 \<le> top_k"
  then show "recommend_from_pantry lk argsort art pantry_items top_k diet
              = Inr (map (\<lambda>r. (r, 0)) (take (nat top_k) (table_rows rec_map)))"
    using blank_pantry_result [OF assms, of pantry_items lk argsort top_k diet] by simp
next
  assume "(\<forall>i \<in> set pantry_items. strip i = []) \<and> top_k < 0"
  then show "recommend_from_pantry lk argsort art pantry_items top_k diet
              = Inr (map (\<lambda>r. (r, 0))
                  (take (length (table_rows rec_map) - nat (- top_k)) (table_rows rec_map)))"
    using blank_pantry_result [OF assms, of pantry_items lk argsort top_k diet] by simp
next
  fix out
  assume h: "(\<exists>i \<in> set pantry_items. strip i \<noteq> []) \<and> truthy diet \<and> has_diet_tag rec_map"
    and r: "recommend_from_pantry lk argsort art pantry_items top_k diet = Inr out"
  let ?scored = "zip (table_rows rec_map) (lk vec mat (join '' '' (pantry_tokens pantry_items)))"
  from h have q: "join '' '' (pantry_tokens pantry_items) \<noteq> []"
    by (simp add: pantry_query_nonblank)
  from r assms h q have
    "head_sorted argsort top_k (filter (diet_matches (or_str diet [])) ?scored) = Inr out"
    by (simp add: recommend_from_pantry_def Let_def split: if_splits)
  then have sub: "set out \<subseteq> set (filter (diet_matches (or_str diet [])) ?scored)"
    by (rule head_sorted_subset)
  show "\<forall>p \<in> set out.
          fst p \<in> set (table_rows rec_map)
          \<and> (\<exists>t. diet_tag (fst p) = Some t \<and> lower t = lower (or_str diet []))"
  proof
    fix p
    assume "p \<in> set out"
    with sub have m: "diet_matches (or_str diet []) p" and z: "p \<in> set ?scored"
      by auto
    obtain a b where ab: "p = (a, b)" by (cases p)
    with z have "a \<in> set (table_rows rec_map)" by (auto dest: set_zip_leftD)
    with ab have "fst p \<in> set (table_rows rec_map)" by simp
    moreover from m have "\<exists>t. diet_tag (fst p) = Some t \<and> lower t = lower (or_str diet [])"
      by (simp add: diet_matches_def split: option.splits)
    ultimately show "fst p \<in> set (table_rows rec_map)
          \<and> (\<exists>t. diet_tag (fst p) = Some t \<and> lower t = lower (or_str diet []))"
      by blast
  qed
qed

theorem empty_pantry_ignores_diet_witness:
  "recommend_from_pantry scores3 argsort_stable trained3 [] 1 (Some ''keto'')
     = Inr [(tofu_bowl, 0)]
   \<and> diet_tag tofu_bowl = Some ''Vegan''
   \<and> recommend_from_pantry scores3 argsort_stable trained3 [''egg''] 1 (Some ''keto'')
     = Inr [(omelette, 1)]"
proof -
  have blank: "(\<forall>i \<in> set ([] :: string list). strip i = []) \<and> (0::int) \<le> 1"
    by simp
  have a: "recommend_from_pantry scores3 argsort_stable trained3 [] 1 (Some ''keto'')
     = Inr [(tofu_bowl, 0)]"
    using mp [OF conjunct1 [OF empty_pantry_ignores_diet [where art = trained3
        and rec_map = catalog3 and vec = "()" and mat = "()" and lk = scores3
        and argsort = argsort_stable and pantry_items = "[]" and top_k = 1
        and diet = "Some ''keto''"]] blank]
    by (simp add: trained3_def catalog3_def)
  have b: "diet_tag tofu_bowl = Some ''Vegan''"
    by (simp add: tofu_bowl_def)
  have c: "recommend_from_pantry scores3 argsort_stable trained3 [''egg''] 1 (Some ''keto'')
     = Inr [(omelette, 1)]"
    by code_simp
  from a b c show ?thesis by (intro conjI)
qed

text \<open>
  Rows of equal score come in the order the sorting routine gives them: of the two
  vegan rows with score 1/2, one routine puts the first of the table on top, another
  the last.
\<close>

lemma tie_order_follows_argsort:
  "recommend_from_pantry scores3 argsort_stable trained3 [''tofu''] 1 (Some ''vegan'')
     = Inr [(tofu_bowl, 1 / 2)]
   \<and> recommend_from_pantry scores3 argsort_reversing trained3 [''tofu''] 1 (Some ''vegan'')
     = Inr [(lentil_soup, 1 / 2)]"
  by code_simp

end
